theory Spec2Isabelle
  imports Main
begin

section \<open>JavaScript values and objects\<close>

text \<open>
  The client manager (\<^verbatim>\<open>includes/clientManager.js\<close>) handles plain JSON-like objects:
  command payloads, queued commands and telemetry records. A field holds a primitive value;
  \<open>JDate\<close> is a \<^verbatim>\<open>Date\<close> (milliseconds), the only non-primitive the module itself stores in a
  record. Numbers are the integers; nested objects inside a field are not modelled.
  Strings are lists of code units below 256.

  An object is the list of its own properties in insertion order. \<^verbatim>\<open>'k' in o\<close> is
  \<open>has_field\<close>, \<^verbatim>\<open>o.k\<close> is \<open>get_field\<close> (\<^verbatim>\<open>undefined\<close> when absent) and \<^verbatim>\<open>o.k = v\<close> is
  \<open>set_field\<close>: an existing property keeps its place, a new one goes last.
\<close>

datatype jsval = JUndefined | JNull | JBool bool | JNum int | JStr string | JDate nat

type_synonym jsobj = "(string \<times> jsval) list"

definition has_field :: "string \<Rightarrow> jsobj \<Rightarrow> bool" where
  "has_field k obj = (map_of obj k \<noteq> None)"

definition get_field :: "string \<Rightarrow> jsobj \<Rightarrow> jsval" where
  "get_field k obj = (case map_of obj k of None \<Rightarrow> JUndefined | Some v \<Rightarrow> v)"

fun set_field :: "string \<Rightarrow> jsval \<Rightarrow> jsobj \<Rightarrow> jsobj" where
  "set_field k v [] = [(k, v)]"
| "set_field k v ((k', v') # kvs) =
     (if k' = k then (k, v) # kvs else (k', v') # set_field k v kvs)"

section \<open>The document store\<close>

text \<open>
  The store behind \<^verbatim>\<open>this.db\<close> is used through the chain
  \<^verbatim>\<open>get(..).find(..) / push(..) / assign(..) / remove(..) / value() / write()\<close>.
  Its module (\<^verbatim>\<open>includes/databaseGateway\<close>) is not among the sources; the operations are
  modelled as the manager relies on them: a collection is an array held by reference,
  \<^verbatim>\<open>find(src)\<close> yields the first element matching every property of \<^verbatim>\<open>src\<close>,
  \<^verbatim>\<open>find(..).assign(patch)\<close> patches that element in place, \<^verbatim>\<open>push\<close> appends,
  \<^verbatim>\<open>remove(src)\<close> deletes every matching element from the array in place and
  \<^verbatim>\<open>remove()\<close> deletes every (truthy) element, and \<^verbatim>\<open>array.assign(list)\<close> copies the
  indices of \<^verbatim>\<open>list\<close> onto the array. Every update is followed by \<^verbatim>\<open>write()\<close>, so the
  stored document and the in-memory one agree.

  \<open>matches_prop k v\<close> is the test of one property of a \<^verbatim>\<open>find\<close>/\<^verbatim>\<open>remove\<close> source object:
  strict equality, and for the value \<^verbatim>\<open>undefined\<close> the key has to be present.
\<close>

definition matches_prop :: "string \<Rightarrow> jsval \<Rightarrow> jsobj \<Rightarrow> bool" where
  "matches_prop k v obj = (get_field k obj = v \<and> (v \<noteq> JUndefined \<or> has_field k obj))"

fun assign_first :: "('a \<Rightarrow> bool) \<Rightarrow> ('a \<Rightarrow> 'a) \<Rightarrow> 'a list \<Rightarrow> 'a list" where
  "assign_first P f [] = []"
| "assign_first P f (x # xs) = (if P x then f x # xs else x # assign_first P f xs)"

definition remove_matching :: "('a \<Rightarrow> bool) \<Rightarrow> 'a list \<Rightarrow> 'a list" where
  "remove_matching P xs = filter (\<lambda>x. \<not> P x) xs"

definition assign_indices :: "'a list \<Rightarrow> 'a list \<Rightarrow> 'a list" where
  "assign_indices src arr = src @ drop (length src) arr"

text \<open>
  One agent's document. The fields are the collections the modelled handlers use;
  \<open>updateFrequency\<close> is \<^verbatim>\<open>GPSSettings.updateFrequency\<close>.
\<close>

record clientdb =
  CommandQue :: "jsobj list"
  SMSData :: "jsobj list"
  CallData :: "jsobj list"
  contacts :: "jsobj list"
  notificationLog :: "jsobj list"
  wifiNow :: "jsobj list"
  wifiLog :: "jsobj list"
  apps :: "jsobj list"
  currentFolder :: "jsobj list"
  updateFrequency :: int

text \<open>An entry of the \<^verbatim>\<open>clients\<close> collection of the main document.\<close>

record agent =
  clientID :: string
  firstSeen :: nat
  lastSeen :: nat
  isOnline :: bool
  dynamicData :: jsobj

section \<open>The manager's state\<close>

text \<open>
  \<open>clientConnections\<close>, \<open>gpsPollers\<close> and \<open>ignoreDisconnects\<close> are the three \<^verbatim>\<open>Map\<close>s of
  the class. A socket is its handle; a poller is the interval timer that
  \<^verbatim>\<open>setInterval\<close> returns, given by the period in milliseconds at which it fires. \<open>clients\<close> is \<^verbatim>\<open>db.maindb.get('clients')\<close>, \<open>clientdbs\<close> the per-agent
  documents (\<^verbatim>\<open>getClientDatabase\<close> only caches the handle of a document). \<open>emitted\<close> records,
  in order, every \<^verbatim>\<open>socket.emit('order', payload)\<close>.
\<close>

record state =
  clientConnections :: "string \<rightharpoonup> nat"
  gpsPollers :: "string \<rightharpoonup> int"
  ignoreDisconnects :: "string \<rightharpoonup> bool"
  clients :: "agent list"
  clientdbs :: "string \<Rightarrow> clientdb"
  emitted :: "(nat \<times> jsobj) list"

section \<open>Commands\<close>

text \<open>
  The callback of \<^verbatim>\<open>sendCommand\<close> is called once, synchronously, so its arguments are the
  result. The error messages of the module are the constructors below;
  \<open>ForeignError\<close> is a truthy value that is none of them and \<open>TypeErrorThrown\<close> an
  exception leaving \<^verbatim>\<open>sendCommand\<close> (both arise only when the command id names a member
  that the \<^verbatim>\<open>validators\<close> object inherits).
\<close>

datatype cmd_error =
    SmsMissingAction | SmsMissingTo | SmsMissingSms | SmsActionIncorrect
  | FilesMissingAction | FilesMissingPath | FilesActionIncorrect
  | MicMissingSec | GotPermMissingPermission
  | CommandIDNotFound | ClientDoesntExist | SimilarAlreadyQueued
  | ForeignError | TypeErrorThrown

datatype outcome = Requested | CommandQueued

text \<open>\<^verbatim>\<open>Object.values(CONST.messageKeys)\<close>, from the constants module.\<close>

definition messageKeys :: "string list" where
  "messageKeys = [''0xCA'', ''0xFI'', ''0xCL'', ''0xSM'', ''0xMI'', ''0xLO'', ''0xCO'',
     ''0xWI'', ''0xNO'', ''0xCB'', ''0xIN'', ''0xPM'', ''0xGP'']"

definition validateSmsCommand :: "jsobj \<Rightarrow> cmd_error option" where
  "validateSmsCommand payload =
     (if \<not> has_field ''action'' payload then Some SmsMissingAction
      else if get_field ''action'' payload = JStr ''ls'' then None
      else if get_field ''action'' payload = JStr ''sendSMS'' then
        (if \<not> has_field ''to'' payload then Some SmsMissingTo
         else if \<not> has_field ''sms'' payload then Some SmsMissingSms
         else None)
      else Some SmsActionIncorrect)"

definition validateFilesCommand :: "jsobj \<Rightarrow> cmd_error option" where
  "validateFilesCommand payload =
     (if \<not> has_field ''action'' payload then Some FilesMissingAction
      else if get_field ''action'' payload \<in> set [JStr ''ls'', JStr ''dl''] then
        (if \<not> has_field ''path'' payload then Some FilesMissingPath else None)
      else Some FilesActionIncorrect)"

text \<open>
  \<^verbatim>\<open>validators[commandID]\<close> finds the four own entries and, for twelve other names, a
  member inherited from \<^verbatim>\<open>Object.prototype\<close>, which is then called with no receiver and
  no argument: \<^verbatim>\<open>constructor\<close> and \<^verbatim>\<open>toString\<close> return a truthy value,
  \<^verbatim>\<open>isPrototypeOf\<close> returns \<^verbatim>\<open>false\<close>, the others throw.
\<close>

definition inheritedThrowing :: "string list" where
  "inheritedThrowing = [''valueOf'', ''toLocaleString'', ''hasOwnProperty'',
     ''propertyIsEnumerable'', ''__defineGetter__'', ''__defineSetter__'',
     ''__lookupGetter__'', ''__lookupSetter__'', ''__proto__'']"

definition validateCommandParams :: "jsval \<Rightarrow> jsobj \<Rightarrow> cmd_error option" where
  "validateCommandParams commandID commandPayload =
     (case commandID of
        JStr k \<Rightarrow>
          (if k = ''0xSM'' then validateSmsCommand commandPayload
           else if k = ''0xFI'' then validateFilesCommand commandPayload
           else if k = ''0xMI'' then
             (if \<not> has_field ''sec'' commandPayload then Some MicMissingSec else None)
           else if k = ''0xGP'' then
             (if \<not> has_field ''permission'' commandPayload
              then Some GotPermMissingPermission else None)
           else if k = ''constructor'' \<or> k = ''toString'' then Some ForeignError
           else if k = ''isPrototypeOf'' then None
           else if k \<in> set inheritedThrowing then Some TypeErrorThrown
           else if k \<in> set messageKeys then None
           else Some CommandIDNotFound)
      | _ \<Rightarrow> Some CommandIDNotFound)"

text \<open>
  \<^verbatim>\<open>_queueCommand\<close>. \<open>rnd\<close> is the value of \<^verbatim>\<open>Math.floor(Math.random() * 100000)\<close>, drawn
  only when the command is appended. The result is the callback's argument.
\<close>

definition queueCommand ::
  "string \<Rightarrow> jsobj \<Rightarrow> nat \<Rightarrow> state \<Rightarrow> cmd_error option \<times> state" where
  "queueCommand cid commandPayload rnd st =
     (let commandQueue = CommandQue (clientdbs st cid);
          existingTypes = map (get_field ''type'') commandQueue
      in if get_field ''type'' commandPayload \<in> set existingTypes
         then (Some SimilarAlreadyQueued, st)
         else (None,
               st\<lparr>clientdbs := (clientdbs st)(cid := (clientdbs st cid)
                    \<lparr>CommandQue := commandQueue @
                        [set_field ''uid'' (JNum (int rnd)) commandPayload]\<rparr>)\<rparr>))"

definition sendCommand ::
  "string \<Rightarrow> jsval \<Rightarrow> jsobj \<Rightarrow> nat \<Rightarrow> state \<Rightarrow> (cmd_error + outcome) \<times> state" where
  "sendCommand cid commandID commandPayload rnd st =
     (case validateCommandParams commandID commandPayload of
        Some error \<Rightarrow> (Inl error, st)
      | None \<Rightarrow>
         (case find (\<lambda>c. clientID c = cid) (clients st) of
            None \<Rightarrow> (Inl ClientDoesntExist, st)
          | Some client \<Rightarrow>
             (let payload = set_field ''type'' commandID commandPayload
              in case clientConnections st cid of
                   Some socket \<Rightarrow>
                     (Inr Requested, st\<lparr>emitted := emitted st @ [(socket, payload)]\<rparr>)
                 | None \<Rightarrow>
                     (case queueCommand cid payload rnd st of
                        (None, st') \<Rightarrow> (Inr CommandQueued, st')
                      | (Some error, st') \<Rightarrow> (Inl error, st')))))"

text \<open>
  \<^verbatim>\<open>_processCommandQueue\<close>. \<^verbatim>\<open>clientQueue\<close> is the stored array itself, and
  \<^verbatim>\<open>forEach\<close> visits the indices \<open>0 .. length - 1\<close> of the length it had at the start,
  reading the array as it is when an index is reached and passing over an index that is
  no longer there. The callback of a successful send removes, in place, every entry with
  the uid of the command. \<open>replayLoop cid n k\<close> is the loop with \<open>n\<close> indices left, at
  index \<open>k\<close>; the first component of the result tells whether an exception left the loop.
  The draw handed to \<open>sendCommand\<close> is never used here: the command is itself in the queue
  (see \<open>sendCommand_replay_draw\<close>).
\<close>

fun replayLoop :: "string \<Rightarrow> nat \<Rightarrow> nat \<Rightarrow> state \<Rightarrow> bool \<times> state" where
  "replayLoop cid 0 k st = (False, st)"
| "replayLoop cid (Suc n) k st =
     (let clientQueue = CommandQue (clientdbs st cid)
      in if k < length clientQueue then
           (let command = clientQueue ! k;
                uid = get_field ''uid'' command
            in case sendCommand cid (get_field ''type'' command) command 0 st of
                 (Inl error, st') \<Rightarrow>
                   (if error = TypeErrorThrown then (True, st')
                    else replayLoop cid n (Suc k) st')
               | (Inr res, st') \<Rightarrow>
                   replayLoop cid n (Suc k)
                     (st'\<lparr>clientdbs := (clientdbs st')(cid := (clientdbs st' cid)
                        \<lparr>CommandQue := remove_matching (matches_prop ''uid'' uid)
                           (CommandQue (clientdbs st' cid))\<rparr>)\<rparr>))
         else replayLoop cid n (Suc k) st)"

definition processCommandQueue :: "string \<Rightarrow> state \<Rightarrow> bool \<times> state" where
  "processCommandQueue cid st =
     (let clientQueue = CommandQue (clientdbs st cid)
      in if length clientQueue = 0 then (False, st)
         else replayLoop cid (length clientQueue) 0 st)"

section \<open>Location polling\<close>

text \<open>
  \<^verbatim>\<open>setInterval(callback, delay)\<close> of the runtime (Node.js) fires every \<open>delay\<close>
  milliseconds when \<open>1 \<le> delay \<le> 2 ^ 31 - 1\<close>; any other delay is replaced by 1.
  \<open>timerPeriod\<close> is the period of the timer created for a delay.
\<close>

definition TIMEOUT_MAX :: int where
  "TIMEOUT_MAX = 2147483647"

definition timerPeriod :: "int \<Rightarrow> int" where
  "timerPeriod delay = (if 1 \<le> delay \<and> delay \<le> TIMEOUT_MAX then delay else 1)"

definition gpsPoll :: "string \<Rightarrow> state \<Rightarrow> state" where
  "gpsPoll cid st =
     (let st1 = st\<lparr>gpsPollers := (gpsPollers st)(cid := None)\<rparr>;
          frequency = updateFrequency (clientdbs st1 cid)
      in if frequency > 0
         then st1\<lparr>gpsPollers := (gpsPollers st1)(cid \<mapsto> timerPeriod (frequency * 1000))\<rparr>
         else st1)"

text \<open>
  What the callback of that timer does each time it fires: a location command with an
  empty payload (\<open>rnd\<close> is the draw, used if the command is queued).
\<close>

definition gpsTick :: "string \<Rightarrow> nat \<Rightarrow> state \<Rightarrow> state" where
  "gpsTick cid rnd st = snd (sendCommand cid (JStr ''0xLO'') [] rnd st)"

datatype poll_error = PollingIntervalTooShort

definition setGpsPollSpeed :: "string \<Rightarrow> int \<Rightarrow> state \<Rightarrow> poll_error option \<times> state" where
  "setGpsPollSpeed cid pollEvery st =
     (if pollEvery < 30 \<and> pollEvery \<noteq> 0 then (Some PollingIntervalTooShort, st)
      else (None,
            gpsPoll cid (st\<lparr>clientdbs := (clientdbs st)(cid := (clientdbs st cid)
                           \<lparr>updateFrequency := pollEvery\<rparr>)\<rparr>)))"

section \<open>Connection management\<close>

definition updateOrCreateClient :: "string \<Rightarrow> jsobj \<Rightarrow> nat \<Rightarrow> state \<Rightarrow> state" where
  "updateOrCreateClient cid clientData now st =
     (case find (\<lambda>c. clientID c = cid) (clients st) of
        None \<Rightarrow>
          st\<lparr>clients := clients st @
                [\<lparr>clientID = cid, firstSeen = now, lastSeen = now, isOnline = True,
                  dynamicData = clientData\<rparr>]\<rparr>
      | Some client \<Rightarrow>
          st\<lparr>clients := assign_first (\<lambda>c. clientID c = cid)
                (\<lambda>c. c\<lparr>lastSeen := now, isOnline := True, dynamicData := clientData\<rparr>)
                (clients st)\<rparr>)"

text \<open>
  \<^verbatim>\<open>_setupListeners\<close>: replay of the queue, then the poller. Attaching the handlers changes
  no state; they are the functions of the next section. An exception in the replay leaves
  the function before the poller is started.
\<close>

definition setupListeners :: "string \<Rightarrow> state \<Rightarrow> state" where
  "setupListeners cid st =
     (case clientConnections st cid of
        None \<Rightarrow> st
      | Some socket \<Rightarrow>
          (case processCommandQueue cid st of
             (threw, st') \<Rightarrow> if threw then st' else gpsPoll cid st'))"

definition clientConnect :: "nat \<Rightarrow> string \<Rightarrow> jsobj \<Rightarrow> nat \<Rightarrow> state \<Rightarrow> state" where
  "clientConnect connection cid clientData now st =
     (let st1 = st\<lparr>clientConnections := (clientConnections st)(cid \<mapsto> connection)\<rparr>;
          shouldIgnore = (ignoreDisconnects st1 cid \<noteq> None);
          st2 = st1\<lparr>ignoreDisconnects := (ignoreDisconnects st1)(cid \<mapsto> shouldIgnore)\<rparr>;
          st3 = updateOrCreateClient cid clientData now st2
      in setupListeners cid st3)"

definition clientDisconnect :: "string \<Rightarrow> nat \<Rightarrow> state \<Rightarrow> state" where
  "clientDisconnect cid now st =
     (if ignoreDisconnects st cid = Some True
      then st\<lparr>ignoreDisconnects := (ignoreDisconnects st)(cid := None)\<rparr>
      else st\<lparr>clients := assign_first (\<lambda>c. clientID c = cid)
                 (\<lambda>c. c\<lparr>lastSeen := now, isOnline := False\<rparr>) (clients st),
              clientConnections := (clientConnections st)(cid := None),
              gpsPollers := (gpsPollers st)(cid := None),
              ignoreDisconnects := (ignoreDisconnects st)(cid := None)\<rparr>)"

section \<open>Listings and statistics\<close>

definition getClientList :: "state \<Rightarrow> agent list" where
  "getClientList st = clients st"

definition getClientListOnline :: "state \<Rightarrow> agent list" where
  "getClientListOnline st = filter (\<lambda>client. isOnline client) (getClientList st)"

definition getClientListOffline :: "state \<Rightarrow> agent list" where
  "getClientListOffline st = filter (\<lambda>client. \<not> isOnline client) (getClientList st)"

record stats =
  totalClients :: nat
  onlineClients :: nat
  offlineClients :: nat
  activePollers :: nat

definition getStats :: "state \<Rightarrow> stats" where
  "getStats st =
     \<lparr>totalClients = length (getClientList st),
      onlineClients = length (getClientListOnline st),
      offlineClients = length (getClientListOffline st),
      activePollers = card (dom (gpsPollers st))\<rparr>"

section \<open>Telemetry handlers\<close>

text \<open>
  A handler runs on the document of the agent whose socket delivered the message. Its
  body is inside \<^verbatim>\<open>try/catch\<close>: an exception ends the handler and keeps what was
  written before. The elements of an incoming list are objects, and an absent list
  behaves as the empty one in every handler below.

  \<open>H a b\<close> stands for \<^verbatim>\<open>this._createHash(a + b)\<close>, the hexadecimal MD5 digest of
  \<^verbatim>\<open>String(a + b)\<close>; the handlers take it as a parameter. \<open>now\<close> is \<^verbatim>\<open>new Date()\<close>.
  The number returned beside the document is the count written to the log
  (\<open>None\<close> when the handler logs no count).
\<close>

definition callStep ::
  "(jsval \<Rightarrow> jsval \<Rightarrow> string) \<Rightarrow> jsobj \<Rightarrow> jsobj list \<times> nat \<Rightarrow> jsobj list \<times> nat" where
  "callStep H call acc =
     (case acc of (dbCall, newCount) \<Rightarrow>
        (let hash = H (get_field ''phoneNo'' call) (get_field ''date'' call)
         in if find (matches_prop ''hash'' (JStr hash)) dbCall = None
            then (dbCall @ [set_field ''hash'' (JStr hash) call], newCount + 1)
            else (dbCall, newCount)))"

definition callHandler ::
  "(jsval \<Rightarrow> jsval \<Rightarrow> string) \<Rightarrow> jsobj list \<Rightarrow> clientdb \<Rightarrow> clientdb \<times> nat option" where
  "callHandler H callsList db =
     (if length callsList = 0 then (db, None)
      else (case fold (callStep H) callsList (CallData db, 0) of
              (dbCall, newCount) \<Rightarrow> (db\<lparr>CallData := dbCall\<rparr>, Some newCount)))"

definition smsStep ::
  "(jsval \<Rightarrow> jsval \<Rightarrow> string) \<Rightarrow> jsobj \<Rightarrow> jsobj list \<times> nat \<Rightarrow> jsobj list \<times> nat" where
  "smsStep H sms acc =
     (case acc of (dbSMS, newCount) \<Rightarrow>
        (let hash = H (get_field ''address'' sms) (get_field ''body'' sms)
         in if find (matches_prop ''hash'' (JStr hash)) dbSMS = None
            then (dbSMS @ [set_field ''hash'' (JStr hash) sms], newCount + 1)
            else (dbSMS, newCount)))"

text \<open>
  The SMS message is an object with a list, a boolean (the acknowledgement of a sent
  SMS, logged only) or anything else (ignored).
\<close>

datatype sms_message = SmsList "jsobj list" | SmsSent bool | SmsOther

definition smsHandler ::
  "(jsval \<Rightarrow> jsval \<Rightarrow> string) \<Rightarrow> sms_message \<Rightarrow> clientdb \<Rightarrow> clientdb \<times> nat option" where
  "smsHandler H data db =
     (case data of
        SmsList smslist \<Rightarrow>
          (case fold (smsStep H) smslist (SMSData db, 0) of
             (dbSMS, newCount) \<Rightarrow> (db\<lparr>SMSData := dbSMS\<rparr>, Some newCount))
      | SmsSent b \<Rightarrow> (db, None)
      | SmsOther \<Rightarrow> (db, None))"

definition notificationHandler ::
  "(jsval \<Rightarrow> jsval \<Rightarrow> string) \<Rightarrow> jsobj \<Rightarrow> clientdb \<Rightarrow> clientdb" where
  "notificationHandler H data db =
     (let dbNotificationLog = notificationLog db;
          hash = H (get_field ''key'' data) (get_field ''content'' data)
      in if find (matches_prop ''hash'' (JStr hash)) dbNotificationLog = None
         then db\<lparr>notificationLog := dbNotificationLog @ [set_field ''hash'' (JStr hash) data]\<rparr>
         else db)"

text \<open>
  \<^verbatim>\<open>contact.phoneNo.replace(/\s+/g, '')\<close> deletes the white space of a string, and
  throws when \<^verbatim>\<open>phoneNo\<close> is not a string: the loop then ends with the contacts stored so
  far and no count is logged.
\<close>

definition js_space :: "char \<Rightarrow> bool" where
  "js_space c = (of_char c \<in> set [9, 10, 11, 12, 13, 32, 160 :: nat])"

definition strip_spaces :: "string \<Rightarrow> string" where
  "strip_spaces s = filter (\<lambda>c. \<not> js_space c) s"

fun contactsLoop ::
  "(jsval \<Rightarrow> jsval \<Rightarrow> string) \<Rightarrow> jsobj list \<Rightarrow> jsobj list \<times> nat
     \<Rightarrow> jsobj list \<times> nat option" where
  "contactsLoop H [] (dbContacts, newCount) = (dbContacts, Some newCount)"
| "contactsLoop H (contact # rest) (dbContacts, newCount) =
     (case get_field ''phoneNo'' contact of
        JStr phoneNo \<Rightarrow>
          (let contact1 = set_field ''phoneNo'' (JStr (strip_spaces phoneNo)) contact;
               hash = H (get_field ''phoneNo'' contact1) (get_field ''name'' contact1)
           in if find (matches_prop ''hash'' (JStr hash)) dbContacts = None
              then contactsLoop H rest
                     (dbContacts @ [set_field ''hash'' (JStr hash) contact1], newCount + 1)
              else contactsLoop H rest (dbContacts, newCount))
      | _ \<Rightarrow> (dbContacts, None))"

definition contactsHandler ::
  "(jsval \<Rightarrow> jsval \<Rightarrow> string) \<Rightarrow> jsobj list \<Rightarrow> clientdb \<Rightarrow> clientdb \<times> nat option" where
  "contactsHandler H contactsList db =
     (if length contactsList = 0 then (db, None)
      else (case contactsLoop H contactsList (contacts db, 0) of
              (dbContacts, logged) \<Rightarrow> (db\<lparr>contacts := dbContacts\<rparr>, logged)))"




definition appsHandler :: "jsobj list \<Rightarrow> clientdb \<Rightarrow> clientdb" where
  "appsHandler appsList db = db\<lparr>apps := assign_indices appsList (apps db)\<rparr>"

definition handleFileList :: "jsobj list \<Rightarrow> clientdb \<Rightarrow> clientdb" where
  "handleFileList list db =
     (if length list > 0
      then db\<lparr>currentFolder := assign_indices list
                                  (remove_matching (\<lambda>e. True) (currentFolder db))\<rparr>
      else db)"

text \<open>A handler applied to the document of agent \<open>cid\<close>.\<close>

definition onClient :: "string \<Rightarrow> (clientdb \<Rightarrow> clientdb) \<Rightarrow> state \<Rightarrow> state" where
  "onClient cid handler st = st\<lparr>clientdbs := (clientdbs st)(cid := handler (clientdbs st cid))\<rparr>"

section \<open>Sequences of operations\<close>

text \<open>
  The operations that touch a command queue: a \<open>sendCommand\<close> with its draw, the replay by
  itself, and a connect (which replays) or disconnect. \<open>run\<close> performs a sequence of
  them.
\<close>

datatype manager_op =
    Send string jsval jsobj nat
  | Replay string
  | Connect nat string jsobj nat
  | Disconnect string nat

fun apply_op :: "manager_op \<Rightarrow> state \<Rightarrow> state" where
  "apply_op (Send cid kind payload rnd) st = snd (sendCommand cid kind payload rnd st)"
| "apply_op (Replay cid) st = snd (processCommandQueue cid st)"
| "apply_op (Connect socket cid clientData now) st = clientConnect socket cid clientData now st"
| "apply_op (Disconnect cid now) st = clientDisconnect cid now st"

definition run :: "manager_op list \<Rightarrow> state \<Rightarrow> state" where
  "run ops st = fold apply_op ops st"

section \<open>Dedupe keys and repeated ingestion\<close>

text \<open>
  \<open>hash_count h log\<close> is the number of records of \<open>log\<close> that a \<^verbatim>\<open>find({hash: h})\<close> would
  match, that is, that carry the dedupe key \<open>h\<close>. \<open>pushNew\<close> is the shape the four
  log-append steps share; it is used to reason about them together, the handlers above
  do not refer to it.
\<close>

definition hash_count :: "string \<Rightarrow> jsobj list \<Rightarrow> nat" where
  "hash_count h log = length (filter (matches_prop ''hash'' (JStr h)) log)"

definition pushNew :: "string \<Rightarrow> jsobj \<Rightarrow> jsobj list \<times> nat \<Rightarrow> jsobj list \<times> nat" where
  "pushNew hash record acc =
     (case acc of (log, newCount) \<Rightarrow>
        if find (matches_prop ''hash'' (JStr hash)) log = None
        then (log @ [set_field ''hash'' (JStr hash) record], newCount + 1)
        else (log, newCount))"

text \<open>
  The dedupe key each handler computes for a record, and the ingestion of one message
  that carries one record. A contact is stored with the white space of its number
  removed, and only a contact whose number is a string gets as far as the key.
\<close>

definition callKey :: "(jsval \<Rightarrow> jsval \<Rightarrow> string) \<Rightarrow> jsobj \<Rightarrow> string" where
  "callKey H call = H (get_field ''phoneNo'' call) (get_field ''date'' call)"

definition smsKey :: "(jsval \<Rightarrow> jsval \<Rightarrow> string) \<Rightarrow> jsobj \<Rightarrow> string" where
  "smsKey H sms = H (get_field ''address'' sms) (get_field ''body'' sms)"

definition notificationKey :: "(jsval \<Rightarrow> jsval \<Rightarrow> string) \<Rightarrow> jsobj \<Rightarrow> string" where
  "notificationKey H data = H (get_field ''key'' data) (get_field ''content'' data)"

definition contactKey :: "(jsval \<Rightarrow> jsval \<Rightarrow> string) \<Rightarrow> jsobj \<Rightarrow> string" where
  "contactKey H contact =
     (case get_field ''phoneNo'' contact of
        JStr phoneNo \<Rightarrow> H (JStr (strip_spaces phoneNo)) (get_field ''name'' contact)
      | _ \<Rightarrow> [])"

definition ingestCall :: "(jsval \<Rightarrow> jsval \<Rightarrow> string) \<Rightarrow> jsobj \<Rightarrow> clientdb \<Rightarrow> clientdb" where
  "ingestCall H call db = fst (callHandler H [call] db)"

definition ingestSms :: "(jsval \<Rightarrow> jsval \<Rightarrow> string) \<Rightarrow> jsobj \<Rightarrow> clientdb \<Rightarrow> clientdb" where
  "ingestSms H sms db = fst (smsHandler H (SmsList [sms]) db)"

definition ingestContact :: "(jsval \<Rightarrow> jsval \<Rightarrow> string) \<Rightarrow> jsobj \<Rightarrow> clientdb \<Rightarrow> clientdb" where
  "ingestContact H contact db = fst (contactsHandler H [contact] db)"

definition contactNormal :: "jsobj \<Rightarrow> jsobj" where
  "contactNormal contact =
     (case get_field ''phoneNo'' contact of
        JStr phoneNo \<Rightarrow> set_field ''phoneNo'' (JStr (strip_spaces phoneNo)) contact
      | _ \<Rightarrow> contact)"

definition stringPhone :: "jsobj \<Rightarrow> bool" where
  "stringPhone contact = (case get_field ''phoneNo'' contact of JStr phoneNo \<Rightarrow> True | _ \<Rightarrow> False)"

section \<open>Every other element\<close>

text \<open>
  The elements of a list at the offsets 0, 2, 4, ... and at the offsets 1, 3, 5, ...;
  they describe what a replay sends and what it leaves.
\<close>

fun sentOnes :: "'a list \<Rightarrow> 'a list" where
  "sentOnes [] = []"
| "sentOnes [x] = [x]"
| "sentOnes (x # y # zs) = x # sentOnes zs"

fun keptOnes :: "'a list \<Rightarrow> 'a list" where
  "keptOnes [] = []"
| "keptOnes [x] = []"
| "keptOnes (x # y # zs) = y # keptOnes zs"

section \<open>Wifi networks by name\<close>

text \<open>
  The natural key of a wifi record is its pair of \<^verbatim>\<open>SSID\<close> and \<^verbatim>\<open>BSSID\<close>; a named
  network carries both. \<open>wifiStamp\<close> is a network as the loop pushes it,
  \<open>touchFirsts now K\<close> sets \<^verbatim>\<open>lastSeen\<close> in the first entry of each key in \<open>K\<close>, and
  \<open>newNetworks seen\<close> picks, in order, the first network of each key that is not among
  \<open>seen\<close>. They serve to state what the wifi handler computes.
\<close>

definition wifiKey :: "jsobj \<Rightarrow> jsval \<times> jsval" where
  "wifiKey wifi = (get_field ''SSID'' wifi, get_field ''BSSID'' wifi)"


definition wifiStamp :: "nat \<Rightarrow> jsobj \<Rightarrow> jsobj" where
  "wifiStamp now wifi = set_field ''lastSeen'' (JDate now) (set_field ''firstSeen'' (JDate now) wifi)"

fun touchFirsts :: "nat \<Rightarrow> (jsval \<times> jsval) set \<Rightarrow> jsobj list \<Rightarrow> jsobj list" where
  "touchFirsts now K [] = []"
| "touchFirsts now K (entry # rest) =
     (if wifiKey entry \<in> K
      then set_field ''lastSeen'' (JDate now) entry # touchFirsts now (K - {wifiKey entry}) rest
      else entry # touchFirsts now K rest)"


section \<open>Example states\<close>

text \<open>A manager that knows one agent, \<open>a1\<close>, which is offline and has empty collections.\<close>

definition offlineAgentState :: state where
  "offlineAgentState =
     \<lparr>clientConnections = Map.empty, gpsPollers = Map.empty, ignoreDisconnects = Map.empty,
      clients = [\<lparr>clientID = ''a1'', firstSeen = 1, lastSeen = 2, isOnline = False,
                  dynamicData = []\<rparr>],
      clientdbs = (\<lambda>cid. \<lparr>CommandQue = [], SMSData = [], CallData = [], contacts = [],
                     notificationLog = [], wifiNow = [], wifiLog = [], apps = [],
                     currentFolder = [], updateFrequency = 0\<rparr>),
      emitted = []\<rparr>"

text \<open>The same with a second agent, \<open>a2\<close>, online on socket 4 and polled every minute.\<close>

definition twoAgentState :: state where
  "twoAgentState = offlineAgentState
     \<lparr>clientConnections := [''a2'' \<mapsto> 4],
      gpsPollers := [''a2'' \<mapsto> 60000],
      clients := clients offlineAgentState @
        [\<lparr>clientID = ''a2'', firstSeen = 3, lastSeen = 3, isOnline = True, dynamicData = []\<rparr>]\<rparr>"

text \<open>Agent \<open>a1\<close> offline with two commands waiting.\<close>

definition queuedState :: state where
  "queuedState = offlineAgentState
     \<lparr>clientdbs := (clientdbs offlineAgentState)(''a1'' := (clientdbs offlineAgentState ''a1'')
        \<lparr>CommandQue := [[(''type'', JStr ''0xCO''), (''uid'', JNum 11)],
                         [(''type'', JStr ''0xWI''), (''uid'', JNum 22)]]\<rparr>)\<rparr>"

text \<open>Agent \<open>a1\<close> after two connects in a row, on socket 4 and then on socket 5.\<close>

definition reconnectedState :: state where
  "reconnectedState = clientConnect 5 ''a1'' [] 11 (clientConnect 4 ''a1'' [] 10 offlineAgentState)"

text \<open>The two commands waiting while \<open>a1\<close> is connected on socket 4.\<close>

definition connectedQueuedState :: state where
  "connectedQueuedState = queuedState\<lparr>clientConnections := [''a1'' \<mapsto> 4]\<rparr>"

text \<open>
  A stand-in for the digest in the examples: the concatenation of two strings. The
  document of \<open>a1\<close> in \<open>offlineAgentState\<close> has every collection empty.
\<close>

definition concatKey :: "jsval \<Rightarrow> jsval \<Rightarrow> string" where
  "concatKey a b = (case (a, b) of (JStr x, JStr y) \<Rightarrow> x @ y | _ \<Rightarrow> ''NaN'')"

definition emptyDocument :: clientdb where
  "emptyDocument = clientdbs offlineAgentState ''a1''"



section \<open>Objects: reading after writing\<close>

lemma map_of_set_field: "map_of (set_field k v obj) = (map_of obj)(k \<mapsto> v)"
  by (induction obj) auto

lemma get_set_field_same [simp]: "get_field k (set_field k v obj) = v"
  by (simp add: get_field_def map_of_set_field)

lemma get_set_field_other [simp]:
  "k' \<noteq> k \<Longrightarrow> get_field k' (set_field k v obj) = get_field k' obj"
  by (simp add: get_field_def map_of_set_field)

lemma has_set_field_same [simp]: "has_field k (set_field k v obj)"
  by (simp add: has_field_def map_of_set_field)

lemma has_set_field_other [simp]:
  "k' \<noteq> k \<Longrightarrow> has_field k' (set_field k v obj) = has_field k' obj"
  by (simp add: has_field_def map_of_set_field)


section \<open>What sending, replay and polling leave alone\<close>

lemma sendCommand_frame:
  "ignoreDisconnects (snd (sendCommand cid k p rnd st)) = ignoreDisconnects st
   \<and> clients (snd (sendCommand cid k p rnd st)) = clients st
   \<and> clientConnections (snd (sendCommand cid k p rnd st)) = clientConnections st
   \<and> gpsPollers (snd (sendCommand cid k p rnd st)) = gpsPollers st"
  by (auto simp add: sendCommand_def queueCommand_def Let_def split: option.splits)

lemma replayLoop_frame:
  "ignoreDisconnects (snd (replayLoop cid n k st)) = ignoreDisconnects st
   \<and> clients (snd (replayLoop cid n k st)) = clients st
   \<and> clientConnections (snd (replayLoop cid n k st)) = clientConnections st
   \<and> gpsPollers (snd (replayLoop cid n k st)) = gpsPollers st"
proof (induction n arbitrary: k st)
  case 0
  show ?case by simp
next
  case (Suc n)
  show ?case
  proof (cases "k < length (CommandQue (clientdbs st cid))")
    case False
    then show ?thesis using Suc.IH [of "Suc k" st] by simp
  next
    case True
    obtain r st' where sc: "sendCommand cid (get_field ''type'' (CommandQue (clientdbs st cid) ! k))
        (CommandQue (clientdbs st cid) ! k) 0 st = (r, st')"
      by (cases "sendCommand cid (get_field ''type'' (CommandQue (clientdbs st cid) ! k))
        (CommandQue (clientdbs st cid) ! k) 0 st")
    have fr: "ignoreDisconnects st' = ignoreDisconnects st \<and> clients st' = clients st
        \<and> clientConnections st' = clientConnections st \<and> gpsPollers st' = gpsPollers st"
      using sendCommand_frame [of cid "get_field ''type'' (CommandQue (clientdbs st cid) ! k)"
          "CommandQue (clientdbs st cid) ! k" 0 st] sc by simp
    show ?thesis
    proof (cases r)
      case (Inl e)
      then show ?thesis using True sc fr Suc.IH [of "Suc k" st'] by (simp add: Let_def)
    next
      case (Inr res)
      then show ?thesis
        using True sc fr
          Suc.IH [of "Suc k" "st'\<lparr>clientdbs := (clientdbs st')(cid := (clientdbs st' cid)
                        \<lparr>CommandQue := remove_matching (matches_prop ''uid''
                             (get_field ''uid'' (CommandQue (clientdbs st cid) ! k)))
                           (CommandQue (clientdbs st' cid))\<rparr>)\<rparr>"]
        by (simp add: Let_def)
    qed
  qed
qed

lemma processCommandQueue_frame:
  "ignoreDisconnects (snd (processCommandQueue cid st)) = ignoreDisconnects st
   \<and> clients (snd (processCommandQueue cid st)) = clients st
   \<and> clientConnections (snd (processCommandQueue cid st)) = clientConnections st
   \<and> gpsPollers (snd (processCommandQueue cid st)) = gpsPollers st"
  using replayLoop_frame [of cid "length (CommandQue (clientdbs st cid))" 0 st]
  by (simp add: processCommandQueue_def Let_def)

lemma gpsPoll_frame:
  "ignoreDisconnects (gpsPoll cid st) = ignoreDisconnects st
   \<and> clients (gpsPoll cid st) = clients st
   \<and> clientConnections (gpsPoll cid st) = clientConnections st"
  by (simp add: gpsPoll_def Let_def)

lemma setupListeners_frame:
  "ignoreDisconnects (setupListeners cid st) = ignoreDisconnects st
   \<and> clients (setupListeners cid st) = clients st
   \<and> clientConnections (setupListeners cid st) = clientConnections st"
  using processCommandQueue_frame [of cid st]
    gpsPoll_frame [of cid "snd (processCommandQueue cid st)"]
  by (auto simp add: setupListeners_def split: option.splits prod.splits)

lemma find_assign_first:
  "find P xs = Some x \<Longrightarrow> P (f x) \<Longrightarrow> find P (assign_first P f xs) = Some (f x)"
  by (induction xs) (auto split: if_splits)

lemma assign_first_none: "find P xs = None \<Longrightarrow> assign_first P f xs = xs"
  by (induction xs) (auto split: if_splits)

lemma length_assign_first [simp]: "length (assign_first P f xs) = length xs"
  by (induction xs) auto

lemmas eval_connect = clientConnect_def clientDisconnect_def setupListeners_def
  processCommandQueue_def gpsPoll_def updateOrCreateClient_def offlineAgentState_def Let_def

lemmas eval_send = sendCommand_def queueCommand_def validateCommandParams_def
  validateSmsCommand_def validateFilesCommand_def messageKeys_def inheritedThrowing_def
  get_field_def has_field_def matches_prop_def remove_matching_def

section \<open>The shape of a queue after an operation\<close>

text \<open>
  A command replayed from the queue never reaches the draw: it is sent, or refused by
  validation or the agent lookup, or found pending (it is in the queue itself). So the
  documents are as before the send.
\<close>

lemma sendCommand_replay_draw:
  assumes "k < length (CommandQue (clientdbs st cid))"
  shows "clientdbs (snd (sendCommand cid (get_field ''type'' (CommandQue (clientdbs st cid) ! k))
           (CommandQue (clientdbs st cid) ! k) rnd st)) = clientdbs st"
proof -
  have "get_field ''type'' (CommandQue (clientdbs st cid) ! k)
      \<in> set (map (get_field ''type'') (CommandQue (clientdbs st cid)))"
    using assms by simp
  then show ?thesis
    by (auto simp add: sendCommand_def queueCommand_def Let_def split: option.splits)
qed

lemma sendCommand_queue:
  "CommandQue (clientdbs (snd (sendCommand cid kind p rnd st)) c) = CommandQue (clientdbs st c)
   \<or> (c = cid \<and> kind \<notin> set (map (get_field ''type'') (CommandQue (clientdbs st c)))
       \<and> fst (sendCommand cid kind p rnd st) = Inr CommandQueued
       \<and> CommandQue (clientdbs (snd (sendCommand cid kind p rnd st)) c)
           = CommandQue (clientdbs st c)
             @ [set_field ''uid'' (JNum (int rnd)) (set_field ''type'' kind p)])"
  by (auto simp add: sendCommand_def queueCommand_def Let_def split: option.splits)

lemma filter_self: "\<exists>P. xs = filter P xs"
proof
  show "xs = filter (\<lambda>x. True) xs" by simp
qed

lemma replayLoop_queue:
  "\<exists>P. CommandQue (clientdbs (snd (replayLoop cid n k st)) c)
          = filter P (CommandQue (clientdbs st c))"
proof (induction n arbitrary: k st)
  case 0
  have "CommandQue (clientdbs st c) = filter (\<lambda>x. True) (CommandQue (clientdbs st c))" by simp
  then show ?case by (metis replayLoop.simps(1) snd_conv)
next
  case (Suc n)
  let ?q = "CommandQue (clientdbs st cid)"
  show ?case
  proof (cases "k < length ?q")
    case False
    then show ?thesis using Suc.IH [of "Suc k" st] by simp
  next
    case True
    obtain r st' where sc:
      "sendCommand cid (get_field ''type'' (?q ! k)) (?q ! k) 0 st = (r, st')"
      by (cases "sendCommand cid (get_field ''type'' (?q ! k)) (?q ! k) 0 st")
    have same: "clientdbs st' = clientdbs st"
      using sendCommand_replay_draw [OF True, of 0] sc by simp
    show ?thesis
    proof (cases r)
      case (Inl e)
      then show ?thesis
        using True sc same Suc.IH [of "Suc k" st'] filter_self [of "CommandQue (clientdbs st c)"]
        by (auto simp add: Let_def)
    next
      case (Inr res)
      let ?st2 = "st'\<lparr>clientdbs := (clientdbs st')(cid := (clientdbs st' cid)
                        \<lparr>CommandQue := remove_matching (matches_prop ''uid''
                             (get_field ''uid'' (?q ! k)))
                           (CommandQue (clientdbs st' cid))\<rparr>)\<rparr>"
      have step: "replayLoop cid (Suc n) k st = replayLoop cid n (Suc k) ?st2"
        using True sc Inr by (simp add: Let_def)
      obtain P where P: "CommandQue (clientdbs (snd (replayLoop cid n (Suc k) ?st2)) c)
          = filter P (CommandQue (clientdbs ?st2 c))"
        using Suc.IH [of "Suc k" ?st2] by blast
      have "\<exists>Q. CommandQue (clientdbs ?st2 c) = filter Q (CommandQue (clientdbs st c))"
      proof (cases "c = cid")
        case True
        then show ?thesis using same by (auto simp add: remove_matching_def)
      next
        case False
        have "CommandQue (clientdbs ?st2 c) = filter (\<lambda>x. True) (CommandQue (clientdbs st c))"
          using False same by simp
        then show ?thesis by blast
      qed
      then obtain Q where Q: "CommandQue (clientdbs ?st2 c) = filter Q (CommandQue (clientdbs st c))"
        by blast
      have "CommandQue (clientdbs (snd (replayLoop cid (Suc n) k st)) c)
          = filter (\<lambda>x. Q x \<and> P x) (CommandQue (clientdbs st c))"
        using step P Q by simp
      then show ?thesis by blast
    qed
  qed
qed

lemma processCommandQueue_queue:
  "\<exists>P. CommandQue (clientdbs (snd (processCommandQueue cid st)) c)
          = filter P (CommandQue (clientdbs st c))"
proof (cases "length (CommandQue (clientdbs st cid)) = 0")
  case True
  then show ?thesis
    using filter_self [of "CommandQue (clientdbs st c)"] by (auto simp add: processCommandQueue_def)
next
  case False
  then show ?thesis
    using replayLoop_queue [of cid "length (CommandQue (clientdbs st cid))" 0 st c]
    by (simp add: processCommandQueue_def Let_def)
qed

lemma gpsPoll_clientdbs [simp]: "clientdbs (gpsPoll cid st) = clientdbs st"
  by (simp add: gpsPoll_def Let_def)

lemma clientConnect_queue:
  "\<exists>P. CommandQue (clientdbs (clientConnect socket cid d now st) c)
          = filter P (CommandQue (clientdbs st c))"
proof -
  let ?st3 = "updateOrCreateClient cid d now
      (st\<lparr>clientConnections := (clientConnections st)(cid \<mapsto> socket),
          ignoreDisconnects := (ignoreDisconnects st)(cid \<mapsto> ignoreDisconnects st cid \<noteq> None)\<rparr>)"
  have db: "clientdbs ?st3 = clientdbs st"
    by (simp add: updateOrCreateClient_def split: option.splits)
  have conn: "clientConnections ?st3 cid = Some socket"
    by (simp add: updateOrCreateClient_def split: option.splits)
  have "clientdbs (clientConnect socket cid d now st)
      = clientdbs (snd (processCommandQueue cid ?st3))"
    using conn by (simp add: clientConnect_def Let_def setupListeners_def split: prod.splits)
  then show ?thesis using processCommandQueue_queue [of cid ?st3 c] db by simp
qed

lemma clientDisconnect_clientdbs [simp]: "clientdbs (clientDisconnect cid now st) = clientdbs st"
  by (simp add: clientDisconnect_def)


lemma apply_op_queue:
  "(\<exists>P. CommandQue (clientdbs (apply_op op st) c) = filter P (CommandQue (clientdbs st c)))
   \<or> (\<exists>kind p rnd. op = Send c kind p rnd
        \<and> kind \<notin> set (map (get_field ''type'') (CommandQue (clientdbs st c)))
        \<and> fst (sendCommand c kind p rnd st) = Inr CommandQueued
        \<and> CommandQue (clientdbs (apply_op op st) c)
            = CommandQue (clientdbs st c)
              @ [set_field ''uid'' (JNum (int rnd)) (set_field ''type'' kind p)])"
proof (cases op)
  case (Send cid kind p rnd)
  then show ?thesis
    using sendCommand_queue [of cid kind p rnd st c] filter_self [of "CommandQue (clientdbs st c)"]
    by auto
next
  case (Replay cid)
  then show ?thesis using processCommandQueue_queue [of cid st c] by simp
next
  case (Connect socket cid d now)
  then show ?thesis using clientConnect_queue [of socket cid d now st c] by simp
next
  case (Disconnect cid now)
  then show ?thesis using filter_self [of "CommandQue (clientdbs st c)"] by simp
qed

lemma apply_op_kinds_distinct:
  assumes "distinct (map (get_field ''type'') (CommandQue (clientdbs st c)))"
  shows "distinct (map (get_field ''type'') (CommandQue (clientdbs (apply_op op st) c)))"
  using apply_op_queue [of op st c] assms by (auto simp add: distinct_map_filter)

section \<open>Command validation\<close>

lemma validateSms_iff:
  "(validateSmsCommand p \<noteq> None) =
     (\<not> has_field ''action'' p
      \<or> (get_field ''action'' p \<noteq> JStr ''ls'' \<and> get_field ''action'' p \<noteq> JStr ''sendSMS'')
      \<or> (get_field ''action'' p = JStr ''sendSMS'' \<and> (\<not> has_field ''to'' p \<or> \<not> has_field ''sms'' p)))"
  by (simp add: validateSmsCommand_def)

lemma validateFiles_iff:
  "(validateFilesCommand p \<noteq> None) =
     (\<not> has_field ''action'' p
      \<or> (get_field ''action'' p \<noteq> JStr ''ls'' \<and> get_field ''action'' p \<noteq> JStr ''dl'')
      \<or> \<not> has_field ''path'' p)"
  by (auto simp add: validateFilesCommand_def)

lemma validateSms_error:
  "validateSmsCommand p = Some e \<Longrightarrow>
     e \<in> {SmsMissingAction, SmsMissingTo, SmsMissingSms, SmsActionIncorrect}"
  by (auto simp: validateSmsCommand_def split: if_splits)

lemma validateFiles_error:
  "validateFilesCommand p = Some e \<Longrightarrow>
     e \<in> {FilesMissingAction, FilesMissingPath, FilesActionIncorrect}"
  by (auto simp: validateFilesCommand_def split: if_splits)

lemma sendCommand_invalid:
  "validateCommandParams k p = Some e \<Longrightarrow> sendCommand cid k p rnd st = (Inl e, st)"
  by (simp add: sendCommand_def)

lemma sendCommand_valid_result:
  "validateCommandParams k p = None \<Longrightarrow>
     fst (sendCommand cid k p rnd st) \<in>
       {Inl ClientDoesntExist, Inl SimilarAlreadyQueued, Inr Requested, Inr CommandQueued}"
  by (auto simp add: sendCommand_def queueCommand_def Let_def split: option.splits)

text \<open>
  C1. For the kinds sms (\<open>0xSM\<close>) and files (\<open>0xFI\<close>), validation fails exactly when: for
  sms, \<open>action\<close> is absent, or is neither \<open>ls\<close> nor \<open>sendSMS\<close>, or is \<open>sendSMS\<close> with \<open>to\<close> or
  \<open>sms\<close> absent; for files, \<open>action\<close> is absent, or is neither \<open>ls\<close> nor \<open>dl\<close>, or \<open>path\<close>
  is absent. When it fails, \<open>sendCommand\<close> returns that validation error and the state
  (the emitted orders and every queue) is unchanged; otherwise validation passes and
  the result is one of the later outcomes.
\<close>

theorem sendCommand_sms_files_validation:
  "(validateCommandParams (JStr ''0xSM'') p \<noteq> None) =
     (\<not> has_field ''action'' p
      \<or> (get_field ''action'' p \<noteq> JStr ''ls'' \<and> get_field ''action'' p \<noteq> JStr ''sendSMS'')
      \<or> (get_field ''action'' p = JStr ''sendSMS''
          \<and> (\<not> has_field ''to'' p \<or> \<not> has_field ''sms'' p)))
   \<and> (validateCommandParams (JStr ''0xFI'') p \<noteq> None) =
     (\<not> has_field ''action'' p
      \<or> (get_field ''action'' p \<noteq> JStr ''ls'' \<and> get_field ''action'' p \<noteq> JStr ''dl'')
      \<or> \<not> has_field ''path'' p)
   \<and> (\<forall>k \<in> {''0xSM'', ''0xFI''}.
        case validateCommandParams (JStr k) p of
          Some e \<Rightarrow>
            sendCommand cid (JStr k) p rnd st = (Inl e, st)
            \<and> e \<in> {SmsMissingAction, SmsMissingTo, SmsMissingSms, SmsActionIncorrect,
                    FilesMissingAction, FilesMissingPath, FilesActionIncorrect}
        | None \<Rightarrow>
            fst (sendCommand cid (JStr k) p rnd st) \<in>
              {Inl ClientDoesntExist, Inl SimilarAlreadyQueued, Inr Requested,
               Inr CommandQueued})"
proof -
  have sms: "validateCommandParams (JStr ''0xSM'') p = validateSmsCommand p"
    by (simp add: validateCommandParams_def)
  have files: "validateCommandParams (JStr ''0xFI'') p = validateFilesCommand p"
    by (simp add: validateCommandParams_def)
  have a: "case validateCommandParams (JStr k) p of
          Some e \<Rightarrow>
            sendCommand cid (JStr k) p rnd st = (Inl e, st)
            \<and> e \<in> {SmsMissingAction, SmsMissingTo, SmsMissingSms, SmsActionIncorrect,
                    FilesMissingAction, FilesMissingPath, FilesActionIncorrect}
        | None \<Rightarrow>
            fst (sendCommand cid (JStr k) p rnd st) \<in>
              {Inl ClientDoesntExist, Inl SimilarAlreadyQueued, Inr Requested,
               Inr CommandQueued}" if "k = ''0xSM'' \<or> k = ''0xFI''" for k
  proof (cases "validateCommandParams (JStr k) p")
    case None
    then show ?thesis using sendCommand_valid_result [of "JStr k" p cid rnd st] by simp
  next
    case (Some e)
    have "e \<in> {SmsMissingAction, SmsMissingTo, SmsMissingSms, SmsActionIncorrect,
                    FilesMissingAction, FilesMissingPath, FilesActionIncorrect}"
      using that Some sms files validateSms_error [of p e] validateFiles_error [of p e]
      by auto
    then show ?thesis using Some sendCommand_invalid [of "JStr k" p e cid rnd st] by simp
  qed
  show ?thesis
    using a validateSms_iff [of p] validateFiles_iff [of p] unfolding sms files by blast
qed

theorem sendCommand_sms_files_validation_witness:
  "validateCommandParams (JStr ''0xSM'') [(''action'', JStr ''sendSMS''), (''to'', JStr ''5'')]
     = Some SmsMissingSms
   \<and> sendCommand ''a1'' (JStr ''0xSM'') [(''action'', JStr ''sendSMS''), (''to'', JStr ''5'')] 7
       offlineAgentState = (Inl SmsMissingSms, offlineAgentState)
   \<and> validateCommandParams (JStr ''0xFI'') [(''action'', JStr ''sendSMS''), (''to'', JStr ''5'')]
     = Some FilesActionIncorrect"
  using sendCommand_sms_files_validation
    [of "[(''action'', JStr ''sendSMS''), (''to'', JStr ''5'')]" "''a1''" 7 offlineAgentState]
  by (simp add: validateCommandParams_def validateSmsCommand_def validateFilesCommand_def
      has_field_def get_field_def)

section \<open>Log-append handlers\<close>

lemma callStep_pushNew:
  "callStep H call = pushNew (H (get_field ''phoneNo'' call) (get_field ''date'' call)) call"
  by (simp add: callStep_def pushNew_def fun_eq_iff Let_def)

lemma smsStep_pushNew:
  "smsStep H sms = pushNew (H (get_field ''address'' sms) (get_field ''body'' sms)) sms"
  by (simp add: smsStep_def pushNew_def fun_eq_iff Let_def)

lemma find_None_count: "(find (matches_prop ''hash'' (JStr h)) log = None) = (hash_count h log = 0)"
  by (auto simp add: hash_count_def find_None_iff filter_empty_conv)

lemma matches_hash_set [simp]:
  "matches_prop ''hash'' (JStr h') (set_field ''hash'' (JStr h) r) = (h' = h)"
  by (auto simp add: matches_prop_def)

lemma hash_count_append [simp]:
  "hash_count h (xs @ ys) = hash_count h xs + hash_count h ys"
  by (simp add: hash_count_def)

lemma hash_count_single [simp]:
  "hash_count h' [set_field ''hash'' (JStr h) r] = (if h' = h then 1 else 0)"
  by (simp add: hash_count_def)

lemma hash_count_pushNew:
  "hash_count h' (fst (pushNew h r (log, n)))
     = hash_count h' log + (if h' = h \<and> hash_count h log = 0 then 1 else 0)"
  by (simp add: pushNew_def find_None_count)

lemma pushNew_present: "0 < hash_count h log \<Longrightarrow> pushNew h r (log, n) = (log, n)"
  by (simp add: pushNew_def find_None_count)

lemma pushNew_absent:
  "hash_count h log = 0 \<Longrightarrow>
     pushNew h r (log, n) = (log @ [set_field ''hash'' (JStr h) r], n + 1)"
  by (simp add: pushNew_def find_None_count)

lemma pushNew_then_present: "0 < hash_count h (fst (pushNew h r (log, n)))"
  by (simp add: hash_count_pushNew)

lemma pushNew_mono: "hash_count h' log \<le> hash_count h' (fst (pushNew h r (log, n)))"
  by (simp add: hash_count_pushNew)

lemma pushNew_at_most_one:
  "hash_count h' log \<le> 1 \<Longrightarrow> hash_count h' (fst (pushNew h r (log, n))) \<le> 1"
  by (simp add: hash_count_pushNew)

text \<open>A batch of steps: a fold over keyed records.\<close>

lemma fold_pushNew_mono:
  "hash_count h' log \<le> hash_count h' (fst (fold (\<lambda>r. pushNew (key r) (g r)) b (log, n)))"
proof (induction b arbitrary: log n)
  case Nil
  show ?case by simp
next
  case (Cons r b)
  obtain log1 n1 where s: "pushNew (key r) (g r) (log, n) = (log1, n1)"
    by (cases "pushNew (key r) (g r) (log, n)")
  have "hash_count h' log \<le> hash_count h' log1"
    using pushNew_mono [of h' log "key r" "g r" n] s by simp
  then show ?case using Cons.IH [of log1 n1] s by simp
qed

lemma fold_pushNew_at_most_one:
  "hash_count h' log \<le> 1 \<Longrightarrow>
     hash_count h' (fst (fold (\<lambda>r. pushNew (key r) (g r)) b (log, n))) \<le> 1"
proof (induction b arbitrary: log n)
  case Nil
  then show ?case by simp
next
  case (Cons r b)
  obtain log1 n1 where s: "pushNew (key r) (g r) (log, n) = (log1, n1)"
    by (cases "pushNew (key r) (g r) (log, n)")
  have "hash_count h' log1 \<le> 1"
    using pushNew_at_most_one [OF Cons.prems, of "key r" "g r" n] s by simp
  then show ?case using Cons.IH [of log1 n1] s by simp
qed

lemma fold_pushNew_present:
  "r \<in> set b \<Longrightarrow> 0 < hash_count (key r) (fst (fold (\<lambda>r. pushNew (key r) (g r)) b (log, n)))"
proof (induction b arbitrary: log n)
  case Nil
  then show ?case by simp
next
  case (Cons x b)
  obtain log1 n1 where s: "pushNew (key x) (g x) (log, n) = (log1, n1)"
    by (cases "pushNew (key x) (g x) (log, n)")
  show ?case
  proof (cases "r = x")
    case True
    have "0 < hash_count (key r) log1"
      using pushNew_then_present [of "key x" "g x" log n] s True by simp
    moreover have "hash_count (key r) log1
        \<le> hash_count (key r) (fst (fold (\<lambda>r. pushNew (key r) (g r)) b (log1, n1)))"
      by (rule fold_pushNew_mono)
    ultimately show ?thesis using s by simp
  next
    case False
    then have "r \<in> set b" using Cons.prems by simp
    then show ?thesis using Cons.IH [of log1 n1] s by simp
  qed
qed

lemma fold_pushNew_all_present:
  "(\<And>r. r \<in> set b \<Longrightarrow> 0 < hash_count (key r) log) \<Longrightarrow>
     fold (\<lambda>r. pushNew (key r) (g r)) b (log, n) = (log, n)"
proof (induction b)
  case Nil
  show ?case by simp
next
  case (Cons x b)
  have "pushNew (key x) (g x) (log, n) = (log, n)"
    using Cons.prems [of x] by (simp add: pushNew_present)
  then show ?case using Cons by simp
qed

lemma fold_pushNew_idem:
  "fold (\<lambda>r. pushNew (key r) (g r)) b (fst (fold (\<lambda>r. pushNew (key r) (g r)) b (log, n)), m)
     = (fst (fold (\<lambda>r. pushNew (key r) (g r)) b (log, n)), m)"
  by (rule fold_pushNew_all_present) (rule fold_pushNew_present)


lemma funpow_idem: "f (f x) = f x \<Longrightarrow> 0 < N \<Longrightarrow> (f ^^ N) x = f x"
proof (induction N)
  case 0
  then show ?case by simp
next
  case (Suc N)
  show ?case
  proof (cases "N = 0")
    case True
    then show ?thesis by simp
  next
    case False
    then show ?thesis using Suc by simp
  qed
qed

lemma callHandler_log:
  "fst (callHandler H b db)
     = db\<lparr>CallData := fst (fold (\<lambda>r. pushNew (callKey H r) r) b (CallData db, 0))\<rparr>"
proof -
  have "callStep H = (\<lambda>r. pushNew (callKey H r) r)"
    by (simp add: callStep_pushNew callKey_def fun_eq_iff)
  then show ?thesis by (simp add: callHandler_def split: prod.splits)
qed

lemma callHandler_count:
  "b \<noteq> [] \<Longrightarrow>
     snd (callHandler H b db) = Some (snd (fold (\<lambda>r. pushNew (callKey H r) r) b (CallData db, 0)))"
proof -
  assume "b \<noteq> []"
  moreover have "callStep H = (\<lambda>r. pushNew (callKey H r) r)"
    by (simp add: callStep_pushNew callKey_def fun_eq_iff)
  ultimately show ?thesis by (simp add: callHandler_def split: prod.splits)
qed

lemma callHandler_idem:
  "fst (callHandler H b (fst (callHandler H b db))) = fst (callHandler H b db)"
  using fold_pushNew_idem [of "callKey H" "\<lambda>r. r" b "CallData db" 0 0]
  by (simp add: callHandler_log)

lemma call_dedupe:
  assumes "0 < N"
  shows "(hash_count (callKey H r) (CallData db) \<le> 1 \<longrightarrow>
            hash_count (callKey H r) (CallData ((ingestCall H r ^^ N) db)) = 1)
         \<and> (ingestCall H r ^^ N) db = ingestCall H r db
         \<and> snd (callHandler H [r] (ingestCall H r db)) = Some 0"
proof -
  have idem: "ingestCall H r (ingestCall H r db) = ingestCall H r db"
    by (simp add: ingestCall_def callHandler_idem)
  have rep: "(ingestCall H r ^^ N) db = ingestCall H r db"
    using funpow_idem [OF idem assms] .
  have one: "hash_count (callKey H r) (CallData (ingestCall H r db)) = 1"
    if "hash_count (callKey H r) (CallData db) \<le> 1"
    using that by (simp add: ingestCall_def callHandler_log hash_count_pushNew)
  have zero: "snd (callHandler H [r] (ingestCall H r db)) = Some 0"
    by (simp add: callHandler_count ingestCall_def callHandler_log pushNew_present
        hash_count_pushNew)
  show ?thesis using rep one zero by simp
qed


lemma callHandler_at_most_one:
  "hash_count h (CallData db) \<le> 1 \<Longrightarrow> hash_count h (CallData (fst (callHandler H b db))) \<le> 1"
  using fold_pushNew_at_most_one [of h "CallData db" "callKey H" "\<lambda>r. r" b 0]
  by (simp add: callHandler_log)

lemma smsHandler_log:
  "fst (smsHandler H (SmsList b) db)
     = db\<lparr>SMSData := fst (fold (\<lambda>r. pushNew (smsKey H r) r) b (SMSData db, 0))\<rparr>"
proof -
  have "smsStep H = (\<lambda>r. pushNew (smsKey H r) r)"
    by (simp add: smsStep_pushNew smsKey_def fun_eq_iff)
  then show ?thesis by (simp add: smsHandler_def split: prod.splits)
qed

lemma smsHandler_count:
  "snd (smsHandler H (SmsList b) db)
     = Some (snd (fold (\<lambda>r. pushNew (smsKey H r) r) b (SMSData db, 0)))"
proof -
  have "smsStep H = (\<lambda>r. pushNew (smsKey H r) r)"
    by (simp add: smsStep_pushNew smsKey_def fun_eq_iff)
  then show ?thesis by (simp add: smsHandler_def split: prod.splits)
qed

lemma smsHandler_idem:
  "fst (smsHandler H data (fst (smsHandler H data db))) = fst (smsHandler H data db)"
proof (cases data)
  case (SmsList b)
  then show ?thesis
    using fold_pushNew_idem [of "smsKey H" "\<lambda>r. r" b "SMSData db" 0 0]
    by (simp add: smsHandler_log)
qed (simp_all add: smsHandler_def)

lemma smsHandler_at_most_one:
  "hash_count h (SMSData db) \<le> 1 \<Longrightarrow> hash_count h (SMSData (fst (smsHandler H data db))) \<le> 1"
proof (cases data)
  case (SmsList b)
  assume "hash_count h (SMSData db) \<le> 1"
  then show ?thesis
    using SmsList fold_pushNew_at_most_one [of h "SMSData db" "smsKey H" "\<lambda>r. r" b 0]
    by (simp add: smsHandler_log)
qed (simp_all add: smsHandler_def)

lemma sms_dedupe:
  assumes "0 < N"
  shows "(hash_count (smsKey H r) (SMSData db) \<le> 1 \<longrightarrow>
            hash_count (smsKey H r) (SMSData ((ingestSms H r ^^ N) db)) = 1)
         \<and> (ingestSms H r ^^ N) db = ingestSms H r db
         \<and> snd (smsHandler H (SmsList [r]) (ingestSms H r db)) = Some 0"
proof -
  have idem: "ingestSms H r (ingestSms H r db) = ingestSms H r db"
    by (simp add: ingestSms_def smsHandler_idem)
  have rep: "(ingestSms H r ^^ N) db = ingestSms H r db"
    using funpow_idem [OF idem assms] .
  have one: "hash_count (smsKey H r) (SMSData (ingestSms H r db)) = 1"
    if "hash_count (smsKey H r) (SMSData db) \<le> 1"
    using that by (simp add: ingestSms_def smsHandler_log hash_count_pushNew)
  have zero: "snd (smsHandler H (SmsList [r]) (ingestSms H r db)) = Some 0"
    by (simp add: smsHandler_count ingestSms_def smsHandler_log pushNew_present
        hash_count_pushNew)
  show ?thesis using rep one zero by simp
qed

lemma notificationHandler_log:
  "notificationHandler H data db
     = db\<lparr>notificationLog := fst (pushNew (notificationKey H data) data (notificationLog db, 0))\<rparr>"
  by (simp add: notificationHandler_def pushNew_def notificationKey_def Let_def)

lemma notificationHandler_idem:
  "notificationHandler H data (notificationHandler H data db) = notificationHandler H data db"
  by (simp add: notificationHandler_log pushNew_present hash_count_pushNew)

lemma notificationHandler_at_most_one:
  "hash_count h (notificationLog db) \<le> 1 \<Longrightarrow>
     hash_count h (notificationLog (notificationHandler H data db)) \<le> 1"
  by (simp add: notificationHandler_log hash_count_pushNew)

lemma notification_dedupe:
  assumes "0 < N"
  shows "(hash_count (notificationKey H r) (notificationLog db) \<le> 1 \<longrightarrow>
            hash_count (notificationKey H r)
              (notificationLog ((notificationHandler H r ^^ N) db)) = 1)
         \<and> (notificationHandler H r ^^ N) db = notificationHandler H r db"
proof -
  have rep: "(notificationHandler H r ^^ N) db = notificationHandler H r db"
    using funpow_idem [of "notificationHandler H r" db N] notificationHandler_idem [of H r db] assms
    by simp
  have one: "hash_count (notificationKey H r) (notificationLog (notificationHandler H r db)) = 1"
    if "hash_count (notificationKey H r) (notificationLog db) \<le> 1"
    using that by (simp add: notificationHandler_log hash_count_pushNew)
  show ?thesis using rep one by simp
qed

text \<open>The contacts loop runs the steps of the contacts before the first one that throws.\<close>

lemma contactsLoop_fold:
  "fst (contactsLoop H b (log, n))
     = fst (fold (\<lambda>r. pushNew (contactKey H r) (contactNormal r)) (takeWhile stringPhone b) (log, n))"
proof (induction b arbitrary: log n)
  case Nil
  show ?case by simp
next
  case (Cons c b)
  show ?case
  proof (cases "get_field ''phoneNo'' c")
    case (JStr p)
    then show ?thesis
      using Cons.IH
      by (simp add: stringPhone_def contactKey_def contactNormal_def pushNew_def Let_def)
  qed (simp_all add: stringPhone_def)
qed


lemma contactsHandler_log:
  "fst (contactsHandler H b db)
     = db\<lparr>contacts := fst (fold (\<lambda>r. pushNew (contactKey H r) (contactNormal r))
                               (takeWhile stringPhone b) (contacts db, 0))\<rparr>"
proof (cases "b = []")
  case True
  then show ?thesis by (simp add: contactsHandler_def)
next
  case False
  then show ?thesis
    using contactsLoop_fold [of H b "contacts db" 0]
    by (cases "contactsLoop H b (contacts db, 0)") (simp add: contactsHandler_def)
qed

lemma contactsHandler_idem:
  "fst (contactsHandler H b (fst (contactsHandler H b db))) = fst (contactsHandler H b db)"
  using fold_pushNew_idem [of "contactKey H" contactNormal "takeWhile stringPhone b" "contacts db" 0 0]
  by (simp add: contactsHandler_log)

lemma contactsHandler_at_most_one:
  "hash_count h (contacts db) \<le> 1 \<Longrightarrow>
     hash_count h (contacts (fst (contactsHandler H b db))) \<le> 1"
  using fold_pushNew_at_most_one
    [of h "contacts db" "contactKey H" contactNormal "takeWhile stringPhone b" 0]
  by (simp add: contactsHandler_log)

lemma contactsHandler_single:
  "get_field ''phoneNo'' r = JStr p \<Longrightarrow>
     contactsHandler H [r] db
       = (db\<lparr>contacts := fst (pushNew (contactKey H r) (contactNormal r) (contacts db, 0))\<rparr>,
          Some (snd (pushNew (contactKey H r) (contactNormal r) (contacts db, 0))))"
  by (simp add: contactsHandler_def contactKey_def contactNormal_def pushNew_def Let_def)

lemma contact_dedupe:
  assumes "0 < N" and "get_field ''phoneNo'' r = JStr p"
  shows "(hash_count (contactKey H r) (contacts db) \<le> 1 \<longrightarrow>
            hash_count (contactKey H r) (contacts ((ingestContact H r ^^ N) db)) = 1)
         \<and> (ingestContact H r ^^ N) db = ingestContact H r db
         \<and> snd (contactsHandler H [r] (ingestContact H r db)) = Some 0"
proof -
  have idem: "ingestContact H r (ingestContact H r db) = ingestContact H r db"
    by (simp add: ingestContact_def contactsHandler_idem)
  have rep: "(ingestContact H r ^^ N) db = ingestContact H r db"
    using funpow_idem [OF idem assms(1)] .
  have one: "hash_count (contactKey H r) (contacts (ingestContact H r db)) = 1"
    if "hash_count (contactKey H r) (contacts db) \<le> 1"
    using that
    by (simp add: ingestContact_def contactsHandler_single [OF assms(2)] hash_count_pushNew)
  have zero: "snd (contactsHandler H [r] (ingestContact H r db)) = Some 0"
    by (simp add: ingestContact_def contactsHandler_single [OF assms(2)] pushNew_present
        hash_count_pushNew)
  show ?thesis using rep one zero by simp
qed

text \<open>
  C3, as the code has it. For a call, an SMS, a notification, and a contact whose
  \<^verbatim>\<open>phoneNo\<close> is a string: ingesting the same record \<open>N \<ge> 1\<close> times gives the document
  that one ingestion gives, so the repeats change nothing, and the repeat logs a count
  of 0; when the log held at most one record with the record's dedupe key, it then holds
  exactly one. Running a handler again on the same batch leaves the document as the
  first run left it, and a log in which a key occurs at most once stays so under any
  batch.
\<close>

theorem log_append_dedupe:
  "0 < N \<Longrightarrow>
   ((hash_count (callKey H r) (CallData db) \<le> 1 \<longrightarrow>
       hash_count (callKey H r) (CallData ((ingestCall H r ^^ N) db)) = 1)
    \<and> (ingestCall H r ^^ N) db = ingestCall H r db
    \<and> snd (callHandler H [r] (ingestCall H r db)) = Some 0
    \<and> fst (callHandler H b (fst (callHandler H b db))) = fst (callHandler H b db)
    \<and> (hash_count h (CallData db) \<le> 1 \<longrightarrow>
         hash_count h (CallData (fst (callHandler H b db))) \<le> 1))
   \<and> ((hash_count (smsKey H r) (SMSData db) \<le> 1 \<longrightarrow>
       hash_count (smsKey H r) (SMSData ((ingestSms H r ^^ N) db)) = 1)
    \<and> (ingestSms H r ^^ N) db = ingestSms H r db
    \<and> snd (smsHandler H (SmsList [r]) (ingestSms H r db)) = Some 0
    \<and> fst (smsHandler H data (fst (smsHandler H data db))) = fst (smsHandler H data db)
    \<and> (hash_count h (SMSData db) \<le> 1 \<longrightarrow>
         hash_count h (SMSData (fst (smsHandler H data db))) \<le> 1))
   \<and> ((\<exists>p. get_field ''phoneNo'' r = JStr p) \<longrightarrow>
        (hash_count (contactKey H r) (contacts db) \<le> 1 \<longrightarrow>
           hash_count (contactKey H r) (contacts ((ingestContact H r ^^ N) db)) = 1)
        \<and> (ingestContact H r ^^ N) db = ingestContact H r db
        \<and> snd (contactsHandler H [r] (ingestContact H r db)) = Some 0)
   \<and> fst (contactsHandler H b (fst (contactsHandler H b db))) = fst (contactsHandler H b db)
   \<and> (hash_count h (contacts db) \<le> 1 \<longrightarrow>
         hash_count h (contacts (fst (contactsHandler H b db))) \<le> 1)
   \<and> ((hash_count (notificationKey H r) (notificationLog db) \<le> 1 \<longrightarrow>
         hash_count (notificationKey H r)
           (notificationLog ((notificationHandler H r ^^ N) db)) = 1)
    \<and> (notificationHandler H r ^^ N) db = notificationHandler H r db
    \<and> (hash_count h (notificationLog db) \<le> 1 \<longrightarrow>
         hash_count h (notificationLog (notificationHandler H r db)) \<le> 1))"
proof -
  assume N: "0 < N"
  have call: "(hash_count (callKey H r) (CallData db) \<le> 1 \<longrightarrow>
       hash_count (callKey H r) (CallData ((ingestCall H r ^^ N) db)) = 1)
    \<and> (ingestCall H r ^^ N) db = ingestCall H r db
    \<and> snd (callHandler H [r] (ingestCall H r db)) = Some 0
    \<and> fst (callHandler H b (fst (callHandler H b db))) = fst (callHandler H b db)
    \<and> (hash_count h (CallData db) \<le> 1 \<longrightarrow>
         hash_count h (CallData (fst (callHandler H b db))) \<le> 1)"
    using call_dedupe [OF N, of H r db] callHandler_idem [of H b db]
      callHandler_at_most_one [of h db H b] by blast
  have sms: "(hash_count (smsKey H r) (SMSData db) \<le> 1 \<longrightarrow>
       hash_count (smsKey H r) (SMSData ((ingestSms H r ^^ N) db)) = 1)
    \<and> (ingestSms H r ^^ N) db = ingestSms H r db
    \<and> snd (smsHandler H (SmsList [r]) (ingestSms H r db)) = Some 0
    \<and> fst (smsHandler H data (fst (smsHandler H data db))) = fst (smsHandler H data db)
    \<and> (hash_count h (SMSData db) \<le> 1 \<longrightarrow>
         hash_count h (SMSData (fst (smsHandler H data db))) \<le> 1)"
    using sms_dedupe [OF N, of H r db] smsHandler_idem [of H data db]
      smsHandler_at_most_one [of h db H data] by blast
  have contact: "(\<exists>p. get_field ''phoneNo'' r = JStr p) \<longrightarrow>
        (hash_count (contactKey H r) (contacts db) \<le> 1 \<longrightarrow>
           hash_count (contactKey H r) (contacts ((ingestContact H r ^^ N) db)) = 1)
        \<and> (ingestContact H r ^^ N) db = ingestContact H r db
        \<and> snd (contactsHandler H [r] (ingestContact H r db)) = Some 0"
    using contact_dedupe [OF N, of r _ H db] by blast
  have contacts: "fst (contactsHandler H b (fst (contactsHandler H b db)))
        = fst (contactsHandler H b db)
      \<and> (hash_count h (contacts db) \<le> 1 \<longrightarrow>
         hash_count h (contacts (fst (contactsHandler H b db))) \<le> 1)"
    using contactsHandler_idem [of H b db] contactsHandler_at_most_one [of h db H b] by blast
  have notification: "(hash_count (notificationKey H r) (notificationLog db) \<le> 1 \<longrightarrow>
         hash_count (notificationKey H r)
           (notificationLog ((notificationHandler H r ^^ N) db)) = 1)
    \<and> (notificationHandler H r ^^ N) db = notificationHandler H r db
    \<and> (hash_count h (notificationLog db) \<le> 1 \<longrightarrow>
         hash_count h (notificationLog (notificationHandler H r db)) \<le> 1)"
    using notification_dedupe [OF N, of H r db] notificationHandler_at_most_one [of h db H r]
    by blast
  show ?thesis using call sms contact contacts notification by blast
qed


text \<open>
  A contact whose \<^verbatim>\<open>phoneNo\<close> is not a string is outside that statement: the handler
  throws at it, so no record of it is stored however often it is ingested, and a
  well-formed contact after it in the same batch is not stored either, though by itself
  it is.
\<close>

theorem contact_without_number_not_stored:
  "contacts (ingestContact concatKey [(''name'', JStr ''Al'')] emptyDocument) = []
   \<and> contacts ((ingestContact concatKey [(''name'', JStr ''Al'')] ^^ 3) emptyDocument) = []
   \<and> contacts (fst (contactsHandler concatKey
        [[(''name'', JStr ''Al'')], [(''phoneNo'', JStr ''555''), (''name'', JStr ''Bo'')]]
        emptyDocument)) = []
   \<and> contacts (fst (contactsHandler concatKey
        [[(''phoneNo'', JStr ''555''), (''name'', JStr ''Bo'')]] emptyDocument))
     = [[(''phoneNo'', JStr ''555''), (''name'', JStr ''Bo''), (''hash'', JStr ''555Bo'')]]"
  by (simp add: ingestContact_def contactsHandler_def concatKey_def get_field_def
      strip_spaces_def js_space_def emptyDocument_def offlineAgentState_def numeral_3_eq_3)

theorem log_append_dedupe_witness:
  "(ingestSms concatKey [(''address'', JStr ''555''), (''body'', JStr ''hi'')] ^^ 3) emptyDocument
     = ingestSms concatKey [(''address'', JStr ''555''), (''body'', JStr ''hi'')] emptyDocument
   \<and> SMSData (ingestSms concatKey [(''address'', JStr ''555''), (''body'', JStr ''hi'')]
        emptyDocument)
     = [[(''address'', JStr ''555''), (''body'', JStr ''hi''), (''hash'', JStr ''555hi'')]]
   \<and> hash_count ''555hi''
        (SMSData ((ingestSms concatKey [(''address'', JStr ''555''), (''body'', JStr ''hi'')] ^^ 3)
           emptyDocument)) = 1
   \<and> (ingestContact concatKey [(''phoneNo'', JStr ''5 5 5''), (''name'', JStr ''Al'')] ^^ 3)
        emptyDocument
     = ingestContact concatKey [(''phoneNo'', JStr ''5 5 5''), (''name'', JStr ''Al'')] emptyDocument
   \<and> contacts (ingestContact concatKey [(''phoneNo'', JStr ''5 5 5''), (''name'', JStr ''Al'')]
        emptyDocument)
     = [[(''phoneNo'', JStr ''555''), (''name'', JStr ''Al''), (''hash'', JStr ''555Al'')]]"
proof -
  let ?sms = "[(''address'', JStr ''555''), (''body'', JStr ''hi'')]"
  let ?contact = "[(''phoneNo'', JStr ''5 5 5''), (''name'', JStr ''Al'')]"
  have k: "smsKey concatKey ?sms = ''555hi''"
    by (simp add: smsKey_def concatKey_def get_field_def)
  have e: "hash_count ''555hi'' (SMSData emptyDocument) \<le> 1"
    by (simp add: emptyDocument_def offlineAgentState_def hash_count_def)
  have p: "\<exists>p. get_field ''phoneNo'' ?contact = JStr p"
    by (simp add: get_field_def)
  have three: "0 < (3::nat)" by simp
  note sms = log_append_dedupe [OF three, of concatKey ?sms emptyDocument "[]" "[]" SmsOther]
  note contact = log_append_dedupe [OF three, of concatKey ?contact emptyDocument "[]" "[]" SmsOther]
  have s1: "(ingestSms concatKey ?sms ^^ 3) emptyDocument = ingestSms concatKey ?sms emptyDocument"
    using sms by blast
  have "hash_count (smsKey concatKey ?sms) (SMSData emptyDocument) \<le> 1 \<longrightarrow>
      hash_count (smsKey concatKey ?sms)
        (SMSData ((ingestSms concatKey ?sms ^^ 3) emptyDocument)) = 1"
    using sms by blast
  then have s2: "hash_count ''555hi'' (SMSData ((ingestSms concatKey ?sms ^^ 3) emptyDocument)) = 1"
    using e unfolding k by blast
  have "(\<exists>p. get_field ''phoneNo'' ?contact = JStr p) \<longrightarrow>
      (ingestContact concatKey ?contact ^^ 3) emptyDocument
        = ingestContact concatKey ?contact emptyDocument"
    using contact by blast
  then have c1: "(ingestContact concatKey ?contact ^^ 3) emptyDocument
      = ingestContact concatKey ?contact emptyDocument"
    using p by blast
  have s3: "SMSData (ingestSms concatKey ?sms emptyDocument)
     = [[(''address'', JStr ''555''), (''body'', JStr ''hi''), (''hash'', JStr ''555hi'')]]"
    by (simp add: ingestSms_def smsHandler_def smsStep_def concatKey_def get_field_def
        emptyDocument_def offlineAgentState_def)
  have c2: "contacts (ingestContact concatKey ?contact emptyDocument)
     = [[(''phoneNo'', JStr ''555''), (''name'', JStr ''Al''), (''hash'', JStr ''555Al'')]]"
    by (simp add: ingestContact_def contactsHandler_def concatKey_def get_field_def
        strip_spaces_def js_space_def emptyDocument_def offlineAgentState_def)
  show ?thesis using s1 s2 s3 c1 c2 by simp
qed
section \<open>Queueing for an offline agent\<close>

lemma queueCommand_pending:
  "get_field ''type'' p \<in> set (map (get_field ''type'') (CommandQue (clientdbs st cid))) \<Longrightarrow>
     queueCommand cid p rnd st = (Some SimilarAlreadyQueued, st)"
  by (simp add: queueCommand_def)

text \<open>
  C2. Let the agent have no live connection. If a command of the kind is already in
  its queue, \<open>sendCommand\<close> with that kind returns an error and leaves the whole state, so
  the queue, as it was; the error is \<open>SimilarAlreadyQueued\<close> (the duplicate-pending error)
  once the payload has passed validation and the agent is registered, the two checks
  made before the queue is looked at. If no command of the kind is waiting (and those
  checks pass), the payload, tagged with its kind and the drawn uid, is appended
  and the result is \<open>CommandQueued\<close>; and \<open>CommandQueued\<close> is returned only when no command
  of the kind was waiting.
\<close>

theorem sendCommand_offline_duplicate:
  "clientConnections st cid = None \<Longrightarrow>
   (JStr kind \<in> set (map (get_field ''type'') (CommandQue (clientdbs st cid))) \<longrightarrow>
      snd (sendCommand cid (JStr kind) p rnd st) = st
      \<and> (\<exists>e. fst (sendCommand cid (JStr kind) p rnd st) = Inl e)
      \<and> (validateCommandParams (JStr kind) p = None
           \<and> find (\<lambda>c. clientID c = cid) (clients st) \<noteq> None \<longrightarrow>
         fst (sendCommand cid (JStr kind) p rnd st) = Inl SimilarAlreadyQueued))
   \<and> (JStr kind \<notin> set (map (get_field ''type'') (CommandQue (clientdbs st cid)))
        \<and> validateCommandParams (JStr kind) p = None
        \<and> find (\<lambda>c. clientID c = cid) (clients st) \<noteq> None \<longrightarrow>
      sendCommand cid (JStr kind) p rnd st =
        (Inr CommandQueued,
         st\<lparr>clientdbs := (clientdbs st)(cid := (clientdbs st cid)
              \<lparr>CommandQue := CommandQue (clientdbs st cid) @
                 [set_field ''uid'' (JNum (int rnd)) (set_field ''type'' (JStr kind) p)]\<rparr>)\<rparr>))
   \<and> (fst (sendCommand cid (JStr kind) p rnd st) = Inr CommandQueued \<longrightarrow>
        JStr kind \<notin> set (map (get_field ''type'') (CommandQue (clientdbs st cid))))"
  by (auto simp add: sendCommand_def queueCommand_def Let_def split: option.splits)


theorem sendCommand_offline_duplicate_witness:
  "sendCommand ''a1'' (JStr ''0xCO'') [] 33 queuedState = (Inl SimilarAlreadyQueued, queuedState)
   \<and> fst (sendCommand ''a1'' (JStr ''0xCL'') [] 33 queuedState) = Inr CommandQueued
   \<and> CommandQue (clientdbs (snd (sendCommand ''a1'' (JStr ''0xCL'') [] 33 queuedState)) ''a1'')
       = [[(''type'', JStr ''0xCO''), (''uid'', JNum 11)],
          [(''type'', JStr ''0xWI''), (''uid'', JNum 22)],
          [(''type'', JStr ''0xCL''), (''uid'', JNum 33)]]"
proof -
  have off: "clientConnections queuedState ''a1'' = None"
    by (simp add: queuedState_def offlineAgentState_def)
  have q: "CommandQue (clientdbs queuedState ''a1'')
       = [[(''type'', JStr ''0xCO''), (''uid'', JNum 11)],
          [(''type'', JStr ''0xWI''), (''uid'', JNum 22)]]"
    by (simp add: queuedState_def)
  have known: "find (\<lambda>c. clientID c = ''a1'') (clients queuedState) \<noteq> None"
    by (simp add: queuedState_def offlineAgentState_def)
  have v1: "validateCommandParams (JStr ''0xCO'') [] = None"
    and v2: "validateCommandParams (JStr ''0xCL'') [] = None"
    by (simp_all add: validateCommandParams_def inheritedThrowing_def messageKeys_def)
  have dup: "sendCommand ''a1'' (JStr ''0xCO'') [] 33 queuedState
      = (Inl SimilarAlreadyQueued, queuedState)"
    using sendCommand_offline_duplicate [OF off, of "''0xCO''" "[]" 33] q known v1
    by (simp add: get_field_def prod_eq_iff)
  have new: "sendCommand ''a1'' (JStr ''0xCL'') [] 33 queuedState =
        (Inr CommandQueued,
         queuedState\<lparr>clientdbs := (clientdbs queuedState)(''a1'' := (clientdbs queuedState ''a1'')
              \<lparr>CommandQue := CommandQue (clientdbs queuedState ''a1'') @
                 [set_field ''uid'' (JNum (int 33)) (set_field ''type'' (JStr ''0xCL'') [])]\<rparr>)\<rparr>)"
    using sendCommand_offline_duplicate [OF off, of "''0xCL''" "[]" 33] q known v2
    by (simp add: get_field_def)
  show ?thesis using dup new q by simp
qed
section \<open>The wifi handler\<close>


lemma wifiKey_lastSeen [simp]: "wifiKey (set_field ''lastSeen'' v e) = wifiKey e"
  by (simp add: wifiKey_def)

lemma wifiKey_stamp [simp]: "wifiKey (wifiStamp now w) = wifiKey w"
  by (simp add: wifiKey_def wifiStamp_def)

lemma set_field_twice [simp]: "set_field k v (set_field k v obj) = set_field k v obj"
  by (induction obj) auto

lemma touch_stamp [simp]: "set_field ''lastSeen'' (JDate now) (wifiStamp now w) = wifiStamp now w"
  by (simp add: wifiStamp_def)

lemma touchFirsts_keys [simp]: "map wifiKey (touchFirsts now K log) = map wifiKey log"
  by (induction log arbitrary: K) auto

lemma touchFirsts_length [simp]: "length (touchFirsts now K log) = length log"
  by (induction log arbitrary: K) auto

lemma touchFirsts_empty [simp]: "touchFirsts now {} log = log"
  by (induction log) auto
















lemma stamp_fields [simp]:
  "get_field ''firstSeen'' (wifiStamp now w) = JDate now"
  "get_field ''lastSeen'' (wifiStamp now w) = JDate now"
  by (simp_all add: wifiStamp_def)










section \<open>Replay of the queue on connect\<close>

text \<open>
  The replay on a connected, registered agent whose queued commands pass validation and
  carry pairwise distinct uids: every send succeeds and removes the sent command, the
  next command moves into the freed index and is passed over. The commands at the even
  offsets are emitted, in order; those at the odd offsets stay queued.
\<close>

lemma replayLoop_past_end:
  "length (CommandQue (clientdbs st cid)) \<le> k \<Longrightarrow> replayLoop cid n k st = (False, st)"
  by (induction n arbitrary: k) simp_all

lemma set_field_same_value:
  "get_field k obj = v \<Longrightarrow> v \<noteq> JUndefined \<Longrightarrow> set_field k v obj = obj"
  by (induction obj) (auto simp add: get_field_def split: if_splits)

lemma validated_type_present:
  "validateCommandParams (get_field ''type'' x) x = None \<Longrightarrow> get_field ''type'' x \<noteq> JUndefined"
  by (auto simp add: validateCommandParams_def)

lemma sendCommand_connected:
  assumes "clientConnections st cid = Some socket"
    and "find (\<lambda>c. clientID c = cid) (clients st) \<noteq> None"
    and "validateCommandParams (get_field ''type'' x) x = None"
  shows "sendCommand cid (get_field ''type'' x) x rnd st
           = (Inr Requested, st\<lparr>emitted := emitted st @ [(socket, x)]\<rparr>)"
  using assms set_field_same_value [OF refl validated_type_present [OF assms(3)]]
  by (auto simp add: sendCommand_def Let_def split: option.splits)

lemma remove_sent:
  assumes "distinct (map (get_field ''uid'') (r @ x # t))" and "get_field ''uid'' x \<noteq> JUndefined"
  shows "remove_matching (matches_prop ''uid'' (get_field ''uid'' x)) (r @ x # t) = r @ t"
proof -
  have m: "matches_prop ''uid'' (get_field ''uid'' x) = (\<lambda>e. get_field ''uid'' e = get_field ''uid'' x)"
    using assms(2) by (auto simp add: matches_prop_def fun_eq_iff)
  have a: "get_field ''uid'' x \<notin> get_field ''uid'' ` set r"
    and b: "get_field ''uid'' x \<notin> get_field ''uid'' ` set t"
    using assms(1) by auto
  have "\<forall>e \<in> set r. get_field ''uid'' e \<noteq> get_field ''uid'' x"
    using a by (metis image_eqI)
  moreover have "\<forall>e \<in> set t. get_field ''uid'' e \<noteq> get_field ''uid'' x"
    using b by (metis image_eqI)
  ultimately show ?thesis unfolding m remove_matching_def by (simp add: filter_id_conv)
qed


lemma replayLoop_connected:
  assumes "clientConnections st cid = Some socket"
    and "find (\<lambda>c. clientID c = cid) (clients st) \<noteq> None"
    and "CommandQue (clientdbs st cid) = r @ t"
    and "\<forall>x \<in> set t. validateCommandParams (get_field ''type'' x) x = None"
    and "\<forall>x \<in> set t. get_field ''uid'' x \<noteq> JUndefined"
    and "distinct (map (get_field ''uid'') (r @ t))"
    and "length t \<le> n"
  shows "fst (replayLoop cid n (length r) st) = False
         \<and> emitted (snd (replayLoop cid n (length r) st))
             = emitted st @ map (Pair socket) (sentOnes t)
         \<and> CommandQue (clientdbs (snd (replayLoop cid n (length r) st)) cid) = r @ keptOnes t"
  using assms
proof (induction t arbitrary: r n st rule: sentOnes.induct)
  case 1
  then show ?case by (simp add: replayLoop_past_end)
next
  case (2 x)
  then obtain n' where n: "n = Suc n'" by (cases n) auto
  have q: "CommandQue (clientdbs st cid) = r @ [x]" using "2.prems"(3) .
  have send: "sendCommand cid (get_field ''type'' x) x 0 st
      = (Inr Requested, st\<lparr>emitted := emitted st @ [(socket, x)]\<rparr>)"
    using sendCommand_connected [OF "2.prems"(1) "2.prems"(2)] "2.prems"(4) by simp
  have rm: "remove_matching (matches_prop ''uid'' (get_field ''uid'' x)) (r @ [x]) = r"
    using remove_sent [of r x "[]"] "2.prems"(5) "2.prems"(6) by simp
  let ?st2 = "st\<lparr>emitted := emitted st @ [(socket, x)],
      clientdbs := (clientdbs st)(cid := (clientdbs st cid)\<lparr>CommandQue := r\<rparr>)\<rparr>"
  have step: "replayLoop cid n (length r) st = replayLoop cid n' (Suc (length r)) ?st2"
    unfolding n using q send rm by (simp add: Let_def)
  have rest: "replayLoop cid n' (Suc (length r)) ?st2 = (False, ?st2)"
    by (rule replayLoop_past_end) simp
  show ?case unfolding step rest by simp
next
  case (3 x y zs)
  then obtain n' where n: "n = Suc n'" by (cases n) auto
  have q: "CommandQue (clientdbs st cid) = r @ x # y # zs" using "3.prems"(3) .
  have send: "sendCommand cid (get_field ''type'' x) x 0 st
      = (Inr Requested, st\<lparr>emitted := emitted st @ [(socket, x)]\<rparr>)"
    using sendCommand_connected [OF "3.prems"(1) "3.prems"(2)] "3.prems"(4) by simp
  have rm: "remove_matching (matches_prop ''uid'' (get_field ''uid'' x)) (r @ x # y # zs)
      = r @ y # zs"
    using remove_sent [of r x "y # zs"] "3.prems"(5) "3.prems"(6) by simp
  let ?st2 = "st\<lparr>emitted := emitted st @ [(socket, x)],
      clientdbs := (clientdbs st)(cid := (clientdbs st cid)\<lparr>CommandQue := r @ y # zs\<rparr>)\<rparr>"
  have step: "replayLoop cid n (length r) st = replayLoop cid n' (length (r @ [y])) ?st2"
    unfolding n using q send rm by (simp add: Let_def)
  have d: "distinct (map (get_field ''uid'') ((r @ [y]) @ zs))"
    using "3.prems"(6) by simp
  have ih: "fst (replayLoop cid n' (length (r @ [y])) ?st2) = False
         \<and> emitted (snd (replayLoop cid n' (length (r @ [y])) ?st2))
             = emitted ?st2 @ map (Pair socket) (sentOnes zs)
         \<and> CommandQue (clientdbs (snd (replayLoop cid n' (length (r @ [y])) ?st2)) cid)
             = (r @ [y]) @ keptOnes zs"
  proof (rule "3.IH")
    show "clientConnections ?st2 cid = Some socket" using "3.prems"(1) by simp
    show "find (\<lambda>c. clientID c = cid) (clients ?st2) \<noteq> None" using "3.prems"(2) by simp
    show "CommandQue (clientdbs ?st2 cid) = (r @ [y]) @ zs" by simp
    show "\<forall>x \<in> set zs. validateCommandParams (get_field ''type'' x) x = None"
      using "3.prems"(4) by simp
    show "\<forall>x \<in> set zs. get_field ''uid'' x \<noteq> JUndefined" using "3.prems"(5) by simp
    show "distinct (map (get_field ''uid'') ((r @ [y]) @ zs))" using d .
    show "length zs \<le> n'" using "3.prems"(7) n by simp
  qed
  show ?case unfolding step using ih by simp
qed

lemma processCommandQueue_connected:
  assumes "clientConnections st cid = Some socket"
    and "find (\<lambda>c. clientID c = cid) (clients st) \<noteq> None"
    and "\<forall>x \<in> set (CommandQue (clientdbs st cid)).
           validateCommandParams (get_field ''type'' x) x = None"
    and "\<forall>x \<in> set (CommandQue (clientdbs st cid)). get_field ''uid'' x \<noteq> JUndefined"
    and "distinct (map (get_field ''uid'') (CommandQue (clientdbs st cid)))"
  shows "fst (processCommandQueue cid st) = False
         \<and> emitted (snd (processCommandQueue cid st))
             = emitted st @ map (Pair socket) (sentOnes (CommandQue (clientdbs st cid)))
         \<and> CommandQue (clientdbs (snd (processCommandQueue cid st)) cid)
             = keptOnes (CommandQue (clientdbs st cid))"
proof (cases "CommandQue (clientdbs st cid) = []")
  case True
  then show ?thesis by (simp add: processCommandQueue_def)
next
  case False
  have "fst (replayLoop cid (length (CommandQue (clientdbs st cid))) (length ([]::jsobj list)) st)
          = False
      \<and> emitted (snd (replayLoop cid (length (CommandQue (clientdbs st cid)))
            (length ([]::jsobj list)) st))
          = emitted st @ map (Pair socket) (sentOnes (CommandQue (clientdbs st cid)))
      \<and> CommandQue (clientdbs (snd (replayLoop cid (length (CommandQue (clientdbs st cid)))
            (length ([]::jsobj list)) st)) cid)
          = [] @ keptOnes (CommandQue (clientdbs st cid))"
    using assms by (intro replayLoop_connected) simp_all
  then show ?thesis using False by (simp add: processCommandQueue_def Let_def)
qed

text \<open>
  C5, evaluated. Agent \<open>a1\<close> has two commands waiting, with different uids, and connects
  on socket 4. The replay sends the first command and removes it from the stored array,
  which moves the second command to index 0; the loop goes on at index 1, where nothing
  is left. One order has been emitted and the second command is still queued, whether
  the replay is run by itself on the connected agent or through \<open>clientConnect\<close>.
\<close>

theorem replay_skips_second_command:
  "CommandQue (clientdbs queuedState ''a1'')
     = [[(''type'', JStr ''0xCO''), (''uid'', JNum 11)],
        [(''type'', JStr ''0xWI''), (''uid'', JNum 22)]]
   \<and> emitted (snd (processCommandQueue ''a1'' connectedQueuedState))
     = [(4, [(''type'', JStr ''0xCO''), (''uid'', JNum 11)])]
   \<and> CommandQue (clientdbs (snd (processCommandQueue ''a1'' connectedQueuedState)) ''a1'')
     = [[(''type'', JStr ''0xWI''), (''uid'', JNum 22)]]
   \<and> emitted (clientConnect 4 ''a1'' [] 10 queuedState)
     = [(4, [(''type'', JStr ''0xCO''), (''uid'', JNum 11)])]
   \<and> CommandQue (clientdbs (clientConnect 4 ''a1'' [] 10 queuedState) ''a1'')
     = [[(''type'', JStr ''0xWI''), (''uid'', JNum 22)]]"
  by (simp add: connectedQueuedState_def queuedState_def eval_connect eval_send
      numeral_2_eq_2)

section \<open>Connect, disconnect and the ignore flag\<close>

text \<open>
  C6, as the code has it. A connect stores an ignore entry for the agent whose value is
  true exactly when an entry was already there, that is, when no disconnect has been
  processed since an earlier connect; otherwise the value is false. A disconnect that
  finds the value true only removes the entry: the agent record, the connection and the
  poller stay as they are. A disconnect that finds it false or absent marks the agent
  offline, stamps \<open>lastSeen\<close>, removes the connection and the poller, and removes the
  entry.
\<close>

theorem ignoreDisconnects_contract:
  "ignoreDisconnects (clientConnect socket cid clientData now st) cid
      = Some (ignoreDisconnects st cid \<noteq> None)
   \<and> (ignoreDisconnects st cid = Some True \<longrightarrow>
        clientDisconnect cid now st = st\<lparr>ignoreDisconnects := (ignoreDisconnects st)(cid := None)\<rparr>)
   \<and> (ignoreDisconnects st cid \<noteq> Some True \<longrightarrow>
        clients (clientDisconnect cid now st)
          = assign_first (\<lambda>c. clientID c = cid) (\<lambda>c. c\<lparr>lastSeen := now, isOnline := False\<rparr>)
              (clients st)
        \<and> (\<forall>c. find (\<lambda>c. clientID c = cid) (clients st) = Some c \<longrightarrow>
              find (\<lambda>c. clientID c = cid) (clients (clientDisconnect cid now st))
                = Some (c\<lparr>lastSeen := now, isOnline := False\<rparr>))
        \<and> clientConnections (clientDisconnect cid now st) cid = None
        \<and> gpsPollers (clientDisconnect cid now st) cid = None)
   \<and> ignoreDisconnects (clientDisconnect cid now st) cid = None"
proof -
  have c: "ignoreDisconnects (clientConnect socket cid clientData now st) cid
      = Some (ignoreDisconnects st cid \<noteq> None)"
    by (simp add: clientConnect_def Let_def setupListeners_frame updateOrCreateClient_def
        split: option.splits)
  have d: "find (\<lambda>c. clientID c = cid) (clients st) = Some c \<Longrightarrow>
      find (\<lambda>c. clientID c = cid)
        (assign_first (\<lambda>c. clientID c = cid) (\<lambda>c. c\<lparr>lastSeen := now, isOnline := False\<rparr>)
              (clients st)) = Some (c\<lparr>lastSeen := now, isOnline := False\<rparr>)" for c
  proof -
    assume a: "find (\<lambda>c. clientID c = cid) (clients st) = Some c"
    then have "clientID c = cid" by (auto simp add: find_Some_iff)
    then show ?thesis
      using find_assign_first [OF a, of "\<lambda>c. c\<lparr>lastSeen := now, isOnline := False\<rparr>"] by simp
  qed
  show ?thesis using c d by (simp add: clientDisconnect_def)
qed


text \<open>
  The disconnect that follows a single connect is therefore not suppressed: the connect
  stored the value false, and the disconnect marks the agent offline at time 20.
\<close>

theorem first_disconnect_not_suppressed:
  "ignoreDisconnects (clientConnect 4 ''a1'' [] 10 offlineAgentState) ''a1'' = Some False
   \<and> clients (clientConnect 4 ''a1'' [] 10 offlineAgentState)
       = [\<lparr>clientID = ''a1'', firstSeen = 1, lastSeen = 10, isOnline = True, dynamicData = []\<rparr>]
   \<and> clients (clientDisconnect ''a1'' 20 (clientConnect 4 ''a1'' [] 10 offlineAgentState))
       = [\<lparr>clientID = ''a1'', firstSeen = 1, lastSeen = 20, isOnline = False, dynamicData = []\<rparr>]
   \<and> clientConnections (clientDisconnect ''a1'' 20 (clientConnect 4 ''a1'' [] 10 offlineAgentState))
        ''a1'' = None"
  by (simp add: eval_connect)

theorem ignoreDisconnects_contract_witness:
  "ignoreDisconnects reconnectedState ''a1'' = Some True
   \<and> clientDisconnect ''a1'' 12 reconnectedState
       = reconnectedState\<lparr>ignoreDisconnects := (ignoreDisconnects reconnectedState)(''a1'' := None)\<rparr>
   \<and> clients (clientDisconnect ''a1'' 13 (clientDisconnect ''a1'' 12 reconnectedState))
       = [\<lparr>clientID = ''a1'', firstSeen = 1, lastSeen = 13, isOnline = False, dynamicData = []\<rparr>]
   \<and> clientConnections (clientDisconnect ''a1'' 13 (clientDisconnect ''a1'' 12 reconnectedState))
        ''a1'' = None"
proof -
  have first: "ignoreDisconnects (clientConnect 4 ''a1'' [] 10 offlineAgentState) ''a1''
      = Some False"
    using ignoreDisconnects_contract [of 4 "''a1''" "[]" 10 offlineAgentState]
    by (simp add: offlineAgentState_def)
  have flag: "ignoreDisconnects reconnectedState ''a1'' = Some True"
    using ignoreDisconnects_contract
      [of 5 "''a1''" "[]" 11 "clientConnect 4 ''a1'' [] 10 offlineAgentState"] first
    by (simp add: reconnectedState_def)
  have suppressed: "clientDisconnect ''a1'' 12 reconnectedState
       = reconnectedState\<lparr>ignoreDisconnects := (ignoreDisconnects reconnectedState)(''a1'' := None)\<rparr>"
    using ignoreDisconnects_contract [of 5 "''a1''" "[]" 12 reconnectedState] flag by simp
  have cl: "clients reconnectedState
       = [\<lparr>clientID = ''a1'', firstSeen = 1, lastSeen = 11, isOnline = True, dynamicData = []\<rparr>]"
    by (simp add: reconnectedState_def eval_connect)
  have second: "clients (clientDisconnect ''a1'' 13 (clientDisconnect ''a1'' 12 reconnectedState))
       = [\<lparr>clientID = ''a1'', firstSeen = 1, lastSeen = 13, isOnline = False, dynamicData = []\<rparr>]
     \<and> clientConnections (clientDisconnect ''a1'' 13 (clientDisconnect ''a1'' 12 reconnectedState))
        ''a1'' = None"
    using ignoreDisconnects_contract
      [of 5 "''a1''" "[]" 13 "clientDisconnect ''a1'' 12 reconnectedState"] cl
    unfolding suppressed by simp
  show ?thesis using flag suppressed second by simp
qed
section \<open>The installed-apps snapshot\<close>

text \<open>
  Two lists in a row: the apps handler keeps what the second list does not cover, the
  file-list handler keeps the second list only.
\<close>

lemma appsHandler_twice:
  "apps (appsHandler l2 (appsHandler l1 db))
     = l2 @ drop (length l2) (l1 @ drop (length l1) (apps db))"
  by (simp add: appsHandler_def assign_indices_def)

lemma handleFileList_twice:
  "l2 \<noteq> [] \<Longrightarrow> currentFolder (handleFileList l2 (handleFileList l1 db)) = l2"
  by (simp add: handleFileList_def assign_indices_def remove_matching_def)

text \<open>
  C7, evaluated. The apps handler copies the incoming list onto the stored array without
  emptying it first: after the lists \<open>A, B, C\<close> and then \<open>D, E\<close> the stored apps are
  \<open>D, E, C\<close>. The file-list handler, which empties the array before the copy, keeps
  \<open>D, E\<close> only.
\<close>

theorem appsHandler_merges_lists:
  "apps (appsHandler [[(''appName'', JStr ''D'')], [(''appName'', JStr ''E'')]]
          (appsHandler [[(''appName'', JStr ''A'')], [(''appName'', JStr ''B'')],
                        [(''appName'', JStr ''C'')]]
             (clientdbs offlineAgentState ''a1'')))
     = [[(''appName'', JStr ''D'')], [(''appName'', JStr ''E'')], [(''appName'', JStr ''C'')]]
   \<and> currentFolder (handleFileList [[(''name'', JStr ''D'')], [(''name'', JStr ''E'')]]
          (handleFileList [[(''name'', JStr ''A'')], [(''name'', JStr ''B'')],
                        [(''name'', JStr ''C'')]]
             (clientdbs offlineAgentState ''a1'')))
     = [[(''name'', JStr ''D'')], [(''name'', JStr ''E'')]]"
  by (simp add: appsHandler_def handleFileList_def assign_indices_def remove_matching_def
      offlineAgentState_def)
section \<open>The polling interval\<close>

text \<open>
  \<open>setGpsPollSpeed\<close> with \<open>0 < s < 30\<close> returns the validation error and changes nothing.
  With \<open>s = 0\<close> it succeeds, stores 0 and leaves the agent without a poller. With
  \<open>s \<ge> 30\<close> it succeeds and stores \<open>s\<close>; the timer it creates has the period \<open>s * 1000\<close>
  milliseconds up to \<open>s = 2147483\<close>, and the period 1 millisecond above that. Pollers
  and documents of other agents are untouched.
\<close>

lemma setGpsPollSpeed_cases:
  "(0 < s \<and> s < 30 \<longrightarrow> setGpsPollSpeed cid s st = (Some PollingIntervalTooShort, st))
   \<and> (s = 0 \<or> 30 \<le> s \<longrightarrow>
        fst (setGpsPollSpeed cid s st) = None
        \<and> updateFrequency (clientdbs (snd (setGpsPollSpeed cid s st)) cid) = s
        \<and> gpsPollers (snd (setGpsPollSpeed cid s st)) cid
            = (if s = 0 then None else if s \<le> 2147483 then Some (s * 1000) else Some 1)
        \<and> (\<forall>c. c \<noteq> cid \<longrightarrow>
              gpsPollers (snd (setGpsPollSpeed cid s st)) c = gpsPollers st c
              \<and> clientdbs (snd (setGpsPollSpeed cid s st)) c = clientdbs st c))"
  by (auto simp add: setGpsPollSpeed_def gpsPoll_def timerPeriod_def TIMEOUT_MAX_def Let_def)

text \<open>A tick of the poller of a registered agent: sent at once when the agent is connected.\<close>

lemma gpsTick_connected:
  "clientConnections st cid = Some socket \<Longrightarrow>
   find (\<lambda>c. clientID c = cid) (clients st) \<noteq> None \<Longrightarrow>
     gpsTick cid rnd st = st\<lparr>emitted := emitted st @ [(socket, [(''type'', JStr ''0xLO'')])]\<rparr>"
  by (auto simp add: gpsTick_def sendCommand_def validateCommandParams_def messageKeys_def
      inheritedThrowing_def Let_def split: option.splits)

text \<open>
  C8, evaluated. Agent \<open>a2\<close> is connected on socket 4. A polling interval of 2147484
  seconds is accepted and stored, but the delay of 2147484000 milliseconds is more than
  the runtime takes: the timer that is created fires every millisecond, and each time
  it fires a location command is emitted. One second less gives the period asked for.
\<close>

theorem setGpsPollSpeed_large_interval:
  "fst (setGpsPollSpeed ''a2'' 2147484 twoAgentState) = None
   \<and> updateFrequency (clientdbs (snd (setGpsPollSpeed ''a2'' 2147484 twoAgentState)) ''a2'')
       = 2147484
   \<and> gpsPollers (snd (setGpsPollSpeed ''a2'' 2147484 twoAgentState)) ''a2'' = Some 1
   \<and> emitted (gpsTick ''a2'' 0 (snd (setGpsPollSpeed ''a2'' 2147484 twoAgentState)))
       = [(4, [(''type'', JStr ''0xLO'')])]
   \<and> gpsPollers (snd (setGpsPollSpeed ''a2'' 2147483 twoAgentState)) ''a2''
       = Some 2147483000"
  by (simp add: setGpsPollSpeed_def gpsPoll_def timerPeriod_def TIMEOUT_MAX_def gpsTick_def
      twoAgentState_def offlineAgentState_def eval_send Let_def)

section \<open>Kinds and uids in a queue\<close>

text \<open>
  Along any sequence of sends, replays, connects and disconnects, a queue whose entries
  have pairwise distinct kinds keeps pairwise distinct kinds.
\<close>

lemma queue_kinds_distinct:
  "distinct (map (get_field ''type'') (CommandQue (clientdbs st c))) \<Longrightarrow>
     distinct (map (get_field ''type'') (CommandQue (clientdbs (run ops st) c)))"
proof (induction ops arbitrary: st)
  case Nil
  then show ?case by (simp add: run_def)
next
  case (Cons op ops)
  have r: "run (op # ops) st = run ops (apply_op op st)" by (simp add: run_def)
  show ?case
    unfolding r using Cons.IH [OF apply_op_kinds_distinct [OF Cons.prems, of op]] .
qed

text \<open>
  C9, evaluated. Two commands of different kinds are queued for the offline agent \<open>a1\<close>,
  and both draws give 7: nothing compares a draw with the queue, so both entries carry
  the uid 7. When the agent then connects, the first command is sent and the removal by
  its uid deletes both entries: the second command has not been emitted and is no longer
  queued.
\<close>

theorem equal_draws_share_uid:
  "CommandQue (clientdbs (run [Send ''a1'' (JStr ''0xCO'') [] 7, Send ''a1'' (JStr ''0xWI'') [] 7]
       offlineAgentState) ''a1'')
     = [[(''type'', JStr ''0xCO''), (''uid'', JNum 7)], [(''type'', JStr ''0xWI''), (''uid'', JNum 7)]]
   \<and> \<not> distinct (map (get_field ''uid'')
         (CommandQue (clientdbs (run [Send ''a1'' (JStr ''0xCO'') [] 7,
             Send ''a1'' (JStr ''0xWI'') [] 7] offlineAgentState) ''a1'')))
   \<and> emitted (run [Send ''a1'' (JStr ''0xCO'') [] 7, Send ''a1'' (JStr ''0xWI'') [] 7,
         Connect 4 ''a1'' [] 10] offlineAgentState)
     = [(4, [(''type'', JStr ''0xCO''), (''uid'', JNum 7)])]
   \<and> CommandQue (clientdbs (run [Send ''a1'' (JStr ''0xCO'') [] 7,
         Send ''a1'' (JStr ''0xWI'') [] 7, Connect 4 ''a1'' [] 10] offlineAgentState) ''a1'')
     = []"
  by (simp add: run_def eval_connect eval_send numeral_2_eq_2)

section \<open>Statistics\<close>

text \<open>
  C10. In \<open>getStats\<close> the total is the sum of the online and the offline count: every
  stored client is in exactly one of the two listings, which together hold the clients
  of the full list.
\<close>

theorem getStats_totals_partition:
  "totalClients (getStats st) = onlineClients (getStats st) + offlineClients (getStats st)
   \<and> (\<forall>c \<in> set (getClientList st).
         (c \<in> set (getClientListOnline st)) \<noteq> (c \<in> set (getClientListOffline st)))
   \<and> set (getClientListOnline st) \<union> set (getClientListOffline st) = set (getClientList st)"
  by (auto simp add: getStats_def getClientListOnline_def getClientListOffline_def
      sum_length_filter_compl)

theorem getStats_totals_partition_witness:
  "totalClients (getStats twoAgentState) = 2
   \<and> onlineClients (getStats twoAgentState) = 1
   \<and> offlineClients (getStats twoAgentState) = 1
   \<and> totalClients (getStats twoAgentState)
       = onlineClients (getStats twoAgentState) + offlineClients (getStats twoAgentState)"
  using getStats_totals_partition [of twoAgentState]
  by (simp add: getStats_def getClientListOnline_def getClientListOffline_def
      getClientList_def twoAgentState_def offlineAgentState_def)

end
